theory Spec2Isabelle
  imports Main "HOL-Library.Word" "HOL-Library.Sublist"
begin

unbundle bit_operations_syntax

section \<open>go-git-fs: a commit of a git repository as an io/fs file system\<close>

text \<open>
  The package \<^verbatim>\<open>gitfs\<close> exists in two revisions in the repository: the \<^verbatim>\<open>Object\<close>-based
  adapter (\<^verbatim>\<open>NewFS\<close>, \<^verbatim>\<open>Tree.Open\<close>, \<^verbatim>\<open>NewFileInfo\<close>, \<^verbatim>\<open>NewFile\<close>, \<^verbatim>\<open>Object.ReadDir\<close>,
  \<^verbatim>\<open>Object.Read\<close>) and the earlier \<^verbatim>\<open>File\<close>-based one of \<^verbatim>\<open>src/fs.go\<close>, whose \<^verbatim>\<open>Tree.Open\<close>
  opens blobs only. Both are embedded here. The go-git repository (object store and
  history walk) is an external collaborator: it is a value of the record \<open>Repository\<close>
  whose fields give the outcome of each call the package makes, so every theorem holds
  for every behaviour of the store.
\<close>

subsection \<open>Values of the standard library and of go-git\<close>

type_synonym byte = "8 word"

text \<open>\<^verbatim>\<open>plumbing.Hash\<close> is \<^verbatim>\<open>[20]byte\<close>; \<^verbatim>\<open>time.Time\<close> is read as a number of seconds.\<close>

type_synonym Hash = "160 word"
type_synonym Time = int

text \<open>\<^verbatim>\<open>filemode.FileMode\<close> and \<^verbatim>\<open>fs.FileMode\<close> are both \<^verbatim>\<open>uint32\<close>.\<close>

type_synonym FileMode = "32 word"
type_synonym fs_FileMode = "32 word"

text \<open>
  The error values the package creates, tests for or can receive. Go's sentinel errors
  are compared by identity; \<open>ErrOther\<close> stands for any further error of a collaborator.
\<close>

datatype error =
    ErrNotExist
  | ErrPermission
  | EOF
  | ErrEntryNotFound
  | ErrFileNotFound
  | ErrDirectoryNotFound
  | ErrObjectNotFound
  | ErrMalformedMode FileMode
  | ErrCannotGetFileInfo
  | ErrOther string

definition errors_Is :: "error \<Rightarrow> error \<Rightarrow> bool" where
  "errors_Is err target = (err = target)"

text \<open>The constants of go-git's \<^verbatim>\<open>filemode\<close> (octal 0, 040000, 0100644, 0100664, 0100755,
  0120000, 0160000) and of \<^verbatim>\<open>io/fs\<close> (bit 31, bit 27, octal 0777).\<close>

definition Empty :: FileMode where "Empty = 0"
definition Dir :: FileMode where "Dir = 16384"
definition Regular :: FileMode where "Regular = 33188"
definition Deprecated :: FileMode where "Deprecated = 33204"
definition Executable :: FileMode where "Executable = 33261"
definition Symlink :: FileMode where "Symlink = 40960"
definition Submodule :: FileMode where "Submodule = 57344"

definition ModeDir :: fs_FileMode where "ModeDir = 2147483648"
definition ModeSymlink :: fs_FileMode where "ModeSymlink = 134217728"
definition ModePerm :: fs_FileMode where "ModePerm = 511"

text \<open>\<^verbatim>\<open>FileMode.ToOSFileMode\<close> and \<^verbatim>\<open>FileMode.IsFile\<close> of go-git's \<^verbatim>\<open>filemode\<close>.\<close>

definition ToOSFileMode :: "FileMode \<Rightarrow> error + fs_FileMode" where
  "ToOSFileMode m =
     (if m = Dir then Inr (ModePerm OR ModeDir)
      else if m = Submodule then Inr (ModePerm OR ModeDir)
      else if m = Regular then Inr 420
      else if m = Deprecated then Inr 420
      else if m = Executable then Inr 493
      else if m = Symlink then Inr (ModePerm OR ModeSymlink)
      else Inl (ErrMalformedMode m))"

definition IsFile :: "FileMode \<Rightarrow> bool" where
  "IsFile m = (m = Regular \<or> m = Deprecated \<or> m = Executable \<or> m = Symlink)"

subsection \<open>Lexical paths: \<^verbatim>\<open>path.Clean\<close>, \<^verbatim>\<open>path.Join\<close>, \<^verbatim>\<open>path.Base\<close>, \<^verbatim>\<open>strings.HasPrefix\<close>\<close>

text \<open>
  \<^verbatim>\<open>path.Clean\<close> reads the path from the left and writes into a buffer \<open>out\<close>; \<open>dotdot\<close>
  is the length of the buffer below which a \<^verbatim>\<open>..\<close> element cannot remove anything.
  \<open>backtrack\<close> is the inner loop of the \<^verbatim>\<open>..\<close> case: the write index goes down by one and
  then to the last slash above \<open>dotdot\<close>.
\<close>

fun backidx :: "string \<Rightarrow> nat \<Rightarrow> nat \<Rightarrow> nat" where
  "backidx out dotdot 0 = 0"
| "backidx out dotdot (Suc w) =
     (if Suc w > dotdot \<and> out ! (Suc w) \<noteq> CHR ''/'' then backidx out dotdot w else Suc w)"

definition backtrack :: "string \<Rightarrow> nat \<Rightarrow> string" where
  "backtrack out dotdot = take (backidx out dotdot (length out - 1)) out"

function Clean_loop :: "bool \<Rightarrow> string \<Rightarrow> string \<Rightarrow> nat \<Rightarrow> string" where
  "Clean_loop rooted [] out dotdot = out"
| "Clean_loop rooted (c # rest) out dotdot =
     (if c = CHR ''/'' then Clean_loop rooted rest out dotdot
      else if c = CHR ''.'' \<and> (rest = [] \<or> hd rest = CHR ''/'')
        then Clean_loop rooted rest out dotdot
      else if c = CHR ''.'' \<and> hd rest = CHR ''.'' \<and> (tl rest = [] \<or> hd (tl rest) = CHR ''/'')
        then (if length out > dotdot
                then Clean_loop rooted (tl rest) (backtrack out dotdot) dotdot
              else if \<not> rooted
                then Clean_loop rooted (tl rest)
                       ((if length out > 0 then out @ ''/'' else out) @ ''..'')
                       (length ((if length out > 0 then out @ ''/'' else out) @ ''..''))
              else Clean_loop rooted (tl rest) out dotdot)
      else Clean_loop rooted (dropWhile (\<lambda>x. x \<noteq> CHR ''/'') rest)
             ((if rooted \<and> length out \<noteq> 1 \<or> \<not> rooted \<and> length out \<noteq> 0
               then out @ ''/'' else out) @ c # takeWhile (\<lambda>x. x \<noteq> CHR ''/'') rest)
             dotdot)"
  by pat_completeness auto
termination
proof (relation "measure (\<lambda>(rooted, p, out, dotdot). length p)")
  show "wf (measure (\<lambda>(rooted, p, out, dotdot). length p))"
    by simp
next
  fix rooted :: bool and c :: char and rest out :: string and dotdot :: nat
  have "length (dropWhile (\<lambda>x. x \<noteq> CHR ''/'') rest) \<le> length rest"
    by (rule length_dropWhile_le)
  then show "((rooted, dropWhile (\<lambda>x. x \<noteq> CHR ''/'') rest,
               (if rooted \<and> length out \<noteq> 1 \<or> \<not> rooted \<and> length out \<noteq> 0
                then out @ ''/'' else out) @ c # takeWhile (\<lambda>x. x \<noteq> CHR ''/'') rest,
               dotdot),
              (rooted, c # rest, out, dotdot))
             \<in> measure (\<lambda>(rooted, p, out, dotdot). length p)"
    by simp
qed (auto intro: le_imp_less_Suc)

definition Clean :: "string \<Rightarrow> string" where
  "Clean path =
     (if path = [] then ''.''
      else let rooted = (hd path = CHR ''/'');
               out = (if rooted then Clean_loop True (tl path) ''/'' 1
                      else Clean_loop False path [] 0)
           in if out = [] then ''.'' else out)"

text \<open>\<^verbatim>\<open>path.Join\<close> of two elements: the non-empty elements, separated by a slash, cleaned.\<close>

definition Join :: "string \<Rightarrow> string \<Rightarrow> string" where
  "Join a b =
     (if length a + length b = 0 then []
      else Clean (if a = [] then b else a @ ''/'' @ b))"

text \<open>\<^verbatim>\<open>path.Base\<close>: the last element, trailing slashes removed.\<close>

definition Base :: "string \<Rightarrow> string" where
  "Base path =
     (if path = [] then ''.''
      else let p = rev (dropWhile (\<lambda>x. x = CHR ''/'') (rev path));
               q = rev (takeWhile (\<lambda>x. x \<noteq> CHR ''/'') (rev p))
           in if q = [] then ''/'' else q)"

definition HasPrefix :: "string \<Rightarrow> string \<Rightarrow> bool" where
  "HasPrefix s pre = prefix pre s"

subsection \<open>The object store and the history walk\<close>

text \<open>
  A tree entry, a blob, a tree, a commit as go-git's \<^verbatim>\<open>object\<close> package hands them out.
  A method of a collaborator that can fail is a field holding its outcome:
  \<open>Reader\<close> is what \<^verbatim>\<open>Blob.Reader()\<close> returns (the content, or an error), \<open>Commit_Tree\<close> what
  \<^verbatim>\<open>Commit.Tree()\<close> returns, \<open>FindEntry\<close> and \<open>File\<close> what the tree's lookups return for
  each path.
\<close>

text \<open>\<^verbatim>\<open>int64\<close>: no arithmetic is done on a size; \<open>sint\<close> reads its signed value.\<close>

type_synonym int64 = "64 word"

record TreeEntry =
  Name :: string
  Mode :: FileMode
  Hash :: Hash

record Blob =
  Size :: int64
  Reader :: "error + byte list"

record object_File =
  File_Name :: string
  File_Mode :: FileMode
  File_Blob :: Blob

record object_Tree =
  Entries :: "TreeEntry list"
  FindEntry :: "string \<Rightarrow> error + TreeEntry"
  File :: "string \<Rightarrow> error + object_File"

record Signature =
  When :: Time

record Commit =
  TreeHash :: Hash
  Author :: Signature
  Committer :: Signature
  Commit_Tree :: "error + object_Tree"

text \<open>The dynamic type of what \<^verbatim>\<open>object.GetObject\<close> returns.\<close>

datatype git_Object =
    Tree_Object object_Tree
  | Commit_Object Commit
  | Blob_Object Blob
  | Tag_Object

text \<open>
  \<^verbatim>\<open>git.LogOptions\<close> (the fields the package sets) and the iterator \<^verbatim>\<open>repo.Log\<close> returns:
  the outcomes of its successive \<^verbatim>\<open>Next\<close> calls; past the last one \<^verbatim>\<open>Next\<close> returns
  \<^verbatim>\<open>io.EOF\<close>.
\<close>

record LogOptions =
  From :: Hash
  PathFilter :: "(string \<Rightarrow> bool) option"
  FileName :: "string option"

type_synonym CommitIter = "(error + Commit) list"

definition Next :: "CommitIter \<Rightarrow> error + Commit" where
  "Next it = (case it of [] \<Rightarrow> Inl EOF | x # _ \<Rightarrow> x)"

record Repository =
  ResolveRevision :: "string \<Rightarrow> error + Hash"
  Storer :: "Hash \<Rightarrow> error + git_Object"
  Log :: "LogOptions \<Rightarrow> error + CommitIter"

definition GetObject :: "(Hash \<Rightarrow> error + git_Object) \<Rightarrow> Hash \<Rightarrow> error + git_Object" where
  "GetObject s h = s h"

text \<open>\<^verbatim>\<open>Repository.CommitObject\<close>: the object of that hash when it is a commit.\<close>

definition CommitObject :: "Repository \<Rightarrow> Hash \<Rightarrow> error + Commit" where
  "CommitObject rp h =
     (case Storer rp h of
        Inl err \<Rightarrow> Inl err
      | Inr (Commit_Object c) \<Rightarrow> Inr c
      | Inr _ \<Rightarrow> Inl ErrObjectNotFound)"

subsection \<open>The \<^verbatim>\<open>Object\<close>-based adapter\<close>

text \<open>
  \<^verbatim>\<open>type Tree struct { hash; repo; tree }\<close> and \<^verbatim>\<open>type Object struct\<close>. The field \<^verbatim>\<open>size\<close>
  is \<open>size64\<close> here, and \<^verbatim>\<open>r\<close> is \<open>rdr\<close>: the unread content of the open stream, \<open>None\<close>
  for the nil reader. A nil slice is the empty list.
\<close>

record Tree =
  Tree_hash :: Hash
  Tree_repo :: Repository
  Tree_tree :: object_Tree

record Object =
  commit :: Hash
  hash :: Hash
  repo :: Repository
  fullName :: string
  mode :: fs_FileMode
  size64 :: int64
  isDir :: bool
  modTime :: Time
  rdr :: "byte list option"
  te :: "TreeEntry list"

definition NewFS :: "Repository \<Rightarrow> string \<Rightarrow> error + Tree" where
  "NewFS rp rev' =
     (case ResolveRevision rp rev' of
        Inl err \<Rightarrow> Inl err
      | Inr h \<Rightarrow>
     (case CommitObject rp h of
        Inl err \<Rightarrow> Inl err
      | Inr c \<Rightarrow>
     (case Commit_Tree c of
        Inl err \<Rightarrow> Inl err
      | Inr t \<Rightarrow> Inr \<lparr>Tree_hash = h, Tree_repo = rp, Tree_tree = t\<rparr>)))"

definition NewFileInfo :: "Hash \<Rightarrow> Hash \<Rightarrow> Repository \<Rightarrow> string \<Rightarrow> FileMode \<Rightarrow> error + Object" where
  "NewFileInfo commit' hash' repo' fullName' mode' =
     (case ToOSFileMode mode' of
        Inl err \<Rightarrow> Inl err
      | Inr osMode \<Rightarrow>
     (case GetObject (Storer repo') hash' of
        Inl err \<Rightarrow> Inl err
      | Inr obj \<Rightarrow>
     (case (case obj of
              Tree_Object v \<Rightarrow> Inr (0, True)
            | Commit_Object v \<Rightarrow> Inr (0, True)
            | Blob_Object v \<Rightarrow> Inr (Size v, False)
            | _ \<Rightarrow> Inl ErrCannotGetFileInfo) of
        Inl err \<Rightarrow> Inl err
      | Inr (size', isDir') \<Rightarrow>
     (let logOpt = \<lparr>From = commit', PathFilter = None, FileName = None\<rparr>;
          logOpt = (if isDir'
                    then (if fullName' \<noteq> ''.''
                          then logOpt\<lparr>PathFilter := Some (\<lambda>s. HasPrefix s fullName')\<rparr>
                          else logOpt)
                    else logOpt\<lparr>FileName := Some fullName'\<rparr>)
      in case Log repo' logOpt of
           Inl err \<Rightarrow> Inl err
         | Inr it \<Rightarrow>
        (case Next it of
           Inl err \<Rightarrow> Inl err
         | Inr c \<Rightarrow>
             Inr \<lparr>commit = commit', hash = hash', repo = repo', fullName = fullName',
                  mode = osMode, size64 = size', isDir = isDir',
                  modTime = When (Author c), rdr = None, te = []\<rparr>)))))"

definition NewFile :: "Hash \<Rightarrow> Hash \<Rightarrow> Repository \<Rightarrow> string \<Rightarrow> FileMode \<Rightarrow> error + Object" where
  "NewFile commit' hash' repo' fullName' mode' =
     (case ToOSFileMode mode' of
        Inl err \<Rightarrow> Inl err
      | Inr osMode \<Rightarrow>
     (case GetObject (Storer repo') hash' of
        Inl err \<Rightarrow> Inl err
      | Inr obj \<Rightarrow>
     (case (case obj of
              Tree_Object v \<Rightarrow> Inr (0, True, None, Entries v)
            | Commit_Object v \<Rightarrow>
                (case Commit_Tree v of
                   Inl err \<Rightarrow> Inl err
                 | Inr tree \<Rightarrow> Inr (0, True, None, Entries tree))
            | Blob_Object v \<Rightarrow>
                (case Reader v of
                   Inl err \<Rightarrow> Inl err
                 | Inr content \<Rightarrow> Inr (Size v, False, Some content, []))
            | _ \<Rightarrow> Inl ErrCannotGetFileInfo) of
        Inl err \<Rightarrow> Inl err
      | Inr (size', isDir', r', te') \<Rightarrow>
     (let logOpt = \<lparr>From = commit', PathFilter = None, FileName = None\<rparr>;
          logOpt = (if isDir'
                    then (if fullName' \<noteq> ''.''
                          then logOpt\<lparr>PathFilter := Some (\<lambda>s. HasPrefix s fullName')\<rparr>
                          else logOpt)
                    else logOpt\<lparr>FileName := Some fullName'\<rparr>)
      in case Log repo' logOpt of
           Inl err \<Rightarrow> Inl err
         | Inr it \<Rightarrow>
        (case Next it of
           Inl err \<Rightarrow> Inl err
         | Inr c \<Rightarrow>
             Inr \<lparr>commit = commit', hash = hash', repo = repo', fullName = fullName',
                  mode = osMode, size64 = size', isDir = isDir',
                  modTime = When (Author c), rdr = r', te = te'\<rparr>)))))"

text \<open>\<^verbatim>\<open>Tree.Open\<close>; the deferred function only logs.\<close>

definition Open :: "Tree \<Rightarrow> string \<Rightarrow> error + Object" where
  "Open tree name =
     (if Clean name = ''.''
      then NewFile (Tree_hash tree) (Tree_hash tree) (Tree_repo tree) (Clean name) Dir
      else (case FindEntry (Tree_tree tree) name of
              Inl err \<Rightarrow>
                (if errors_Is err ErrEntryNotFound \<or> errors_Is err ErrFileNotFound
                 then Inl ErrNotExist
                 else Inl err)
            | Inr f \<Rightarrow>
                NewFile (Tree_hash tree) (Hash f) (Tree_repo tree) (Clean name) (Mode f)))"

text \<open>The methods of \<^verbatim>\<open>fs.FileInfo\<close> on an \<^verbatim>\<open>Object\<close>, and \<^verbatim>\<open>Stat\<close>, which returns the object.\<close>

definition Object_Name :: "Object \<Rightarrow> string" where
  "Object_Name ob = Base (fullName ob)"

definition Object_Size :: "Object \<Rightarrow> int64" where
  "Object_Size ob = size64 ob"

definition Object_Mode :: "Object \<Rightarrow> fs_FileMode" where
  "Object_Mode ob = mode ob"

definition Object_ModTime :: "Object \<Rightarrow> Time" where
  "Object_ModTime ob = modTime ob"

definition Object_IsDir :: "Object \<Rightarrow> bool" where
  "Object_IsDir ob = isDir ob"

definition Stat :: "Object \<Rightarrow> error + Object" where
  "Stat ob = Inr ob"

text \<open>
  \<^verbatim>\<open>Object.ReadDir\<close>. The result is Go's pair (slice, error) and the object after the
  call: the cursor \<open>te\<close> is cut before the children are materialised. \<open>ReadDir_loop\<close> is
  the \<^verbatim>\<open>for\<close> loop, which returns at the first child whose \<^verbatim>\<open>NewFileInfo\<close> fails.
\<close>

fun ReadDir_loop :: "Object \<Rightarrow> TreeEntry list \<Rightarrow> error + Object list" where
  "ReadDir_loop ob [] = Inr []"
| "ReadDir_loop ob (v # vs) =
     (case NewFileInfo (commit ob) (Hash v) (repo ob) (Join (fullName ob) (Name v)) (Mode v) of
        Inl err \<Rightarrow> Inl err
      | Inr x \<Rightarrow>
          (case ReadDir_loop ob vs of
             Inl err \<Rightarrow> Inl err
           | Inr xs \<Rightarrow> Inr (x # xs)))"

definition ReadDir :: "Object \<Rightarrow> int \<Rightarrow> (Object list \<times> error option) \<times> Object" where
  "ReadDir ob n =
     (if \<not> isDir ob then (([], Some ErrPermission), ob)
      else if length (te ob) = 0 then (([], Some EOF), ob)
      else let n' = (if n < 0 \<or> int (length (te ob)) < n then length (te ob) else nat n);
               te' = take n' (te ob);
               ob' = ob\<lparr>te := drop n' (te ob)\<rparr>
           in case ReadDir_loop ob' te' of
                Inl err \<Rightarrow> (([], Some err), ob')
              | Inr ret \<Rightarrow> ((ret, None), ob'))"

text \<open>
  \<^verbatim>\<open>Object.Read\<close> with a buffer of \<open>k\<close> bytes: the bytes read, the error, the object after
  the call. \<open>None\<close> is the panic of a call through the nil reader. The stream is an
  in-memory reader: at its end it returns \<^verbatim>\<open>io.EOF\<close> to a non-empty buffer.
\<close>

definition Reader_Read :: "byte list \<Rightarrow> nat \<Rightarrow> (byte list \<times> error option) \<times> byte list" where
  "Reader_Read bs k =
     (if bs = [] then (([], if k = 0 then None else Some EOF), bs)
      else ((take k bs, None), drop k bs))"

definition Read :: "Object \<Rightarrow> nat \<Rightarrow> ((byte list \<times> error option) \<times> Object) option" where
  "Read ob k =
     (if isDir ob then Some (([], Some ErrPermission), ob)
      else (case rdr ob of
              None \<Rightarrow> None
            | Some bs \<Rightarrow>
                (case Reader_Read bs k of
                   (res, bs') \<Rightarrow> Some (res, ob\<lparr>rdr := Some bs'\<rparr>))))"

subsection \<open>The \<^verbatim>\<open>File\<close>-based adapter of \<^verbatim>\<open>src/fs.go\<close>\<close>

text \<open>
  \<^verbatim>\<open>type FileInfo struct\<close> and \<^verbatim>\<open>type File struct\<close>; its \<^verbatim>\<open>Tree\<close> has the fields of the
  \<open>Tree\<close> above. \<open>File_Open\<close> is the \<^verbatim>\<open>Tree.Open\<close> of this revision: it looks the name up
  with \<^verbatim>\<open>Tree.File\<close>, asks the history for the name as given, and reads the committer's
  time.
\<close>

record FileInfo =
  fi_name :: string
  fi_size :: int64
  fi_mode :: fs_FileMode
  fi_modTime :: Time
  fi_isDir :: bool

record fs_File =
  fi :: FileInfo
  File_r :: "byte list option"

definition File_Open :: "Tree \<Rightarrow> string \<Rightarrow> error + fs_File" where
  "File_Open tree name =
     (case File (Tree_tree tree) name of
        Inl err \<Rightarrow> Inl err
      | Inr f \<Rightarrow>
     (case (if IsFile (File_Mode f)
            then (case Reader (File_Blob f) of
                    Inl err \<Rightarrow> Inl err
                  | Inr content \<Rightarrow> Inr (Some content))
            else Inr None) of
        Inl err \<Rightarrow> Inl err
      | Inr r' \<Rightarrow>
     (case ToOSFileMode (File_Mode f) of
        Inl err \<Rightarrow> Inl err
      | Inr fsMode \<Rightarrow>
     (case Log (Tree_repo tree)
             \<lparr>From = Tree_hash tree, PathFilter = None, FileName = Some name\<rparr> of
        Inl err \<Rightarrow> Inl err
      | Inr it \<Rightarrow>
     (case Next it of
        Inl err \<Rightarrow> Inl err
      | Inr c \<Rightarrow>
          Inr \<lparr>fi = \<lparr>fi_name = File_Name f, fi_size = Size (File_Blob f), fi_mode = fsMode,
                     fi_modTime = When (Committer c), fi_isDir = (ModeDir AND fsMode > 0)\<rparr>,
               File_r = r'\<rparr>)))))"

subsection \<open>Notions the properties are stated with\<close>

text \<open>The first commit a history traversal produces: \<^verbatim>\<open>repo.Log\<close>, then one \<^verbatim>\<open>Next\<close>.\<close>

definition first_commit :: "Repository \<Rightarrow> LogOptions \<Rightarrow> error + Commit" where
  "first_commit rp opts = (case Log rp opts of Inl err \<Rightarrow> Inl err | Inr it \<Rightarrow> Next it)"

text \<open>
  The history query of an entry: from the snapshot's commit, filtered by the exact path
  for a file, by the path as a prefix for a directory, and not filtered for the root.
\<close>

definition history_query :: "Hash \<Rightarrow> bool \<Rightarrow> string \<Rightarrow> LogOptions" where
  "history_query c is_dir p =
     \<lparr>From = c,
      PathFilter = (if is_dir \<and> p \<noteq> ''.'' then Some (\<lambda>s. prefix p s) else None),
      FileName = (if is_dir then None else Some p)\<rparr>"

definition directory_like :: "git_Object \<Rightarrow> bool" where
  "directory_like obj =
     (case obj of Tree_Object _ \<Rightarrow> True | Commit_Object _ \<Rightarrow> True | _ \<Rightarrow> False)"

text \<open>
  What the content-bearing constructor opens of an object (the stream of a blob, the
  child list of a tree or of a commit's tree), and the entry both constructors build
  from the object and the first commit of the history.
\<close>

definition opened :: "git_Object \<Rightarrow> error + (byte list option \<times> TreeEntry list)" where
  "opened obj =
     (case obj of
        Tree_Object v \<Rightarrow> Inr (None, Entries v)
      | Commit_Object v \<Rightarrow> map_sum id (\<lambda>t. (None, Entries t)) (Commit_Tree v)
      | Blob_Object v \<Rightarrow> map_sum id (\<lambda>bs. (Some bs, [])) (Reader v)
      | Tag_Object \<Rightarrow> Inl ErrCannotGetFileInfo)"

definition entry_of :: "Hash \<Rightarrow> Hash \<Rightarrow> Repository \<Rightarrow> string \<Rightarrow> fs_FileMode \<Rightarrow> git_Object \<Rightarrow>
    byte list option \<Rightarrow> TreeEntry list \<Rightarrow> Commit \<Rightarrow> Object" where
  "entry_of c h rp fn osMode obj r' te' k =
     \<lparr>commit = c, hash = h, repo = rp, fullName = fn, mode = osMode,
      size64 = (case obj of Blob_Object b \<Rightarrow> Size b | _ \<Rightarrow> 0),
      isDir = directory_like obj, modTime = When (Author k), rdr = r', te = te'\<rparr>"

text \<open>What \<^verbatim>\<open>Stat\<close> exposes of an entry: name, size, mode, modification time, directory flag.\<close>

definition stat_fields :: "Object \<Rightarrow> string \<times> int64 \<times> fs_FileMode \<times> Time \<times> bool" where
  "stat_fields ob =
     (Object_Name ob, Object_Size ob, Object_Mode ob, Object_ModTime ob, Object_IsDir ob)"

text \<open>A store in which every blob's \<^verbatim>\<open>Reader()\<close> has the outcome \<open>q\<close>.\<close>

definition with_Reader :: "error + byte list \<Rightarrow> git_Object \<Rightarrow> git_Object" where
  "with_Reader q obj = (case obj of Blob_Object b \<Rightarrow> Blob_Object (b\<lparr>Reader := q\<rparr>) | _ \<Rightarrow> obj)"

definition Readers_replaced :: "error + byte list \<Rightarrow> Repository \<Rightarrow> Repository" where
  "Readers_replaced q rp = rp\<lparr>Storer := (\<lambda>h. map_sum id (with_Reader q) (Storer rp h))\<rparr>"

text \<open>The metadata materialisation of the child \<open>v\<close> of the directory \<open>ob\<close>, as \<^verbatim>\<open>ReadDir\<close>
  asks for it, and the entries a call with \<open>n\<close> cuts off the cursor.\<close>

definition child :: "Object \<Rightarrow> TreeEntry \<Rightarrow> error + Object" where
  "child ob v =
     NewFileInfo (commit ob) (Hash v) (repo ob) (Join (fullName ob) (Name v)) (Mode v)"

definition sliced :: "Object \<Rightarrow> int \<Rightarrow> TreeEntry list" where
  "sliced ob n =
     take (if n < 0 \<or> int (length (te ob)) < n then length (te ob) else nat n) (te ob)"

text \<open>A sequence of \<^verbatim>\<open>ReadDir\<close> calls on one handle: the results in order, and the handle
  after the last call.\<close>

fun ReadDir_seq :: "Object \<Rightarrow> int list \<Rightarrow> (Object list \<times> error option) list \<times> Object" where
  "ReadDir_seq ob [] = ([], ob)"
| "ReadDir_seq ob (m # ms) =
     (case ReadDir ob m of
        (res, ob') \<Rightarrow> (case ReadDir_seq ob' ms of (rs, ob'') \<Rightarrow> (res # rs, ob'')))"

definition returned :: "(Object list \<times> error option) list \<Rightarrow> Object list" where
  "returned rs = concat (map fst rs)"

subsection \<open>An example repository\<close>

text \<open>
  go-git's \<^verbatim>\<open>Tree.FindEntry\<close> splits the path at the slashes and walks down: a missing
  directory on the way is \<^verbatim>\<open>ErrDirectoryNotFound\<close> (\<^verbatim>\<open>Tree.dir\<close>), a missing last element
  \<^verbatim>\<open>ErrEntryNotFound\<close> (\<^verbatim>\<open>Tree.entry\<close>). \<open>trees\<close> gives the entries of the tree objects.
\<close>

fun Split :: "string \<Rightarrow> string list" where
  "Split [] = [[]]"
| "Split (c # cs) =
     (if c = CHR ''/'' then [] # Split cs
      else (case Split cs of p # ps \<Rightarrow> (c # p) # ps | [] \<Rightarrow> [[c]]))"

fun entry :: "TreeEntry list \<Rightarrow> string \<Rightarrow> TreeEntry option" where
  "entry [] baseName = None"
| "entry (e # es) baseName = (if Name e = baseName then Some e else entry es baseName)"

fun walk :: "(Hash \<Rightarrow> TreeEntry list option) \<Rightarrow> TreeEntry list \<Rightarrow> string list \<Rightarrow> error + TreeEntry" where
  "walk trees es [] = Inl ErrEntryNotFound"
| "walk trees es [p] = (case entry es p of None \<Rightarrow> Inl ErrEntryNotFound | Some e \<Rightarrow> Inr e)"
| "walk trees es (p # ps) =
     (case entry es p of
        None \<Rightarrow> Inl ErrDirectoryNotFound
      | Some e \<Rightarrow>
          (case trees (Hash e) of
             None \<Rightarrow> Inl ErrObjectNotFound
           | Some es' \<Rightarrow> walk trees es' ps))"

definition git_FindEntry :: "(Hash \<Rightarrow> TreeEntry list option) \<Rightarrow> TreeEntry list \<Rightarrow> string \<Rightarrow> error + TreeEntry" where
  "git_FindEntry trees es path = walk trees es (Split path)"

text \<open>
  Commit 1 (tree 2, author time 300, committer time 350) follows commit 6 (author time
  100). The root tree 2 holds the directory \<^verbatim>\<open>docs\<close> (tree 3, with \<^verbatim>\<open>readme.md\<close>, blob 5,
  and \<^verbatim>\<open>guide.md\<close>, blob 8), the file \<^verbatim>\<open>a.go\<close> (blob 4) and the submodule \<^verbatim>\<open>vendor\<close>, whose
  commit 9 is not in the store. Commit 1 changed \<^verbatim>\<open>docs/readme.md\<close>, commit 6 added
  \<^verbatim>\<open>a.go\<close> and \<^verbatim>\<open>docs/guide.md\<close>.
\<close>

definition ex_root :: "TreeEntry list" where
  "ex_root = [\<lparr>Name = ''vendor'', Mode = Submodule, Hash = 9\<rparr>,
              \<lparr>Name = ''a.go'', Mode = Regular, Hash = 4\<rparr>,
              \<lparr>Name = ''docs'', Mode = Dir, Hash = 3\<rparr>]"

definition ex_docs :: "TreeEntry list" where
  "ex_docs = [\<lparr>Name = ''readme.md'', Mode = Regular, Hash = 5\<rparr>,
              \<lparr>Name = ''guide.md'', Mode = Regular, Hash = 8\<rparr>]"

definition ex_trees :: "Hash \<Rightarrow> TreeEntry list option" where
  "ex_trees h = (if h = 2 then Some ex_root else if h = 3 then Some ex_docs else None)"

definition ex_blob_a :: Blob where
  "ex_blob_a = \<lparr>Size = 3, Reader = Inr [1, 2, 3]\<rparr>"

definition ex_tree :: "TreeEntry list \<Rightarrow> object_Tree" where
  "ex_tree es =
     \<lparr>Entries = es,
      FindEntry = git_FindEntry ex_trees es,
      File = (\<lambda>p. if es = ex_root \<and> p = ''a.go''
                   then Inr \<lparr>File_Name = ''a.go'', File_Mode = Regular, File_Blob = ex_blob_a\<rparr>
                   else Inl ErrFileNotFound)\<rparr>"

definition ex_commit1 :: Commit where
  "ex_commit1 = \<lparr>TreeHash = 2, Author = \<lparr>When = 300\<rparr>, Committer = \<lparr>When = 350\<rparr>,
                 Commit_Tree = Inr (ex_tree ex_root)\<rparr>"

definition ex_commit6 :: Commit where
  "ex_commit6 = \<lparr>TreeHash = 7, Author = \<lparr>When = 100\<rparr>, Committer = \<lparr>When = 150\<rparr>,
                 Commit_Tree = Inl ErrObjectNotFound\<rparr>"

definition ex_Storer :: "Hash \<Rightarrow> error + git_Object" where
  "ex_Storer h =
     (if h = 1 then Inr (Commit_Object ex_commit1)
      else if h = 2 then Inr (Tree_Object (ex_tree ex_root))
      else if h = 3 then Inr (Tree_Object (ex_tree ex_docs))
      else if h = 4 then Inr (Blob_Object ex_blob_a)
      else if h = 5 then Inr (Blob_Object \<lparr>Size = 2, Reader = Inr [7, 8]\<rparr>)
      else if h = 6 then Inr (Commit_Object ex_commit6)
      else if h = 8 then Inr (Blob_Object \<lparr>Size = 1, Reader = Inr [9]\<rparr>)
      else Inl ErrObjectNotFound)"

definition ex_touches :: "LogOptions \<Rightarrow> string list \<Rightarrow> bool" where
  "ex_touches opts paths =
     (case FileName opts of
        Some f \<Rightarrow> f \<in> set paths
      | None \<Rightarrow> (case PathFilter opts of Some p \<Rightarrow> list_ex p paths | None \<Rightarrow> True))"

definition ex_Log :: "LogOptions \<Rightarrow> error + CommitIter" where
  "ex_Log opts =
     (if From opts = 1
      then Inr (map (\<lambda>x. Inr (fst x))
                  (filter (\<lambda>x. ex_touches opts (snd x))
                     [(ex_commit1, [''docs/readme.md'']), (ex_commit6, [''a.go'', ''docs/guide.md''])]))
      else Inl ErrObjectNotFound)"

definition ex_repo :: Repository where
  "ex_repo = \<lparr>ResolveRevision = (\<lambda>r. if r = ''master'' then Inr 1 else Inl (ErrOther ''reference not found'')),
              Storer = ex_Storer, Log = ex_Log\<rparr>"

definition ex_snapshot :: Tree where
  "ex_snapshot = \<lparr>Tree_hash = 1, Tree_repo = ex_repo, Tree_tree = ex_tree ex_root\<rparr>"

text \<open>The same repository behind a history walk that fails with \<^verbatim>\<open>fs.ErrNotExist\<close>.\<close>

definition ex_repo_nolog :: Repository where
  "ex_repo_nolog = ex_repo\<lparr>Log := (\<lambda>opts. Inl ErrNotExist)\<rparr>"

text \<open>The root and \<^verbatim>\<open>docs\<close> as \<^verbatim>\<open>Open\<close> returns them, and \<^verbatim>\<open>a.go\<close> and \<^verbatim>\<open>docs/readme.md\<close> as
  listings return them.\<close>

definition ex_root_dir :: Object where
  "ex_root_dir =
     \<lparr>commit = 1, hash = 1, repo = ex_repo, fullName = ''.'', mode = ModePerm OR ModeDir,
      size64 = 0, isDir = True, modTime = 300, rdr = None, te = ex_root\<rparr>"

definition ex_docs_dir :: Object where
  "ex_docs_dir =
     \<lparr>commit = 1, hash = 3, repo = ex_repo, fullName = ''docs'', mode = ModePerm OR ModeDir,
      size64 = 0, isDir = True, modTime = 300, rdr = None, te = ex_docs\<rparr>"

definition ex_a_info :: Object where
  "ex_a_info =
     \<lparr>commit = 1, hash = 4, repo = ex_repo, fullName = ''a.go'', mode = 420,
      size64 = 3, isDir = False, modTime = 100, rdr = None, te = []\<rparr>"

definition ex_readme_info :: Object where
  "ex_readme_info =
     \<lparr>commit = 1, hash = 5, repo = ex_repo, fullName = ''docs/readme.md'', mode = 420,
      size64 = 2, isDir = False, modTime = 300, rdr = None, te = []\<rparr>"

text \<open>The names and the error of one \<^verbatim>\<open>ReadDir\<close> result.\<close>

definition names_of :: "Object list \<times> error option \<Rightarrow> string list \<times> error option" where
  "names_of res = (map fullName (fst res), snd res)"

definition ex_snapshot_nolog :: Tree where
  "ex_snapshot_nolog = ex_snapshot\<lparr>Tree_repo := ex_repo_nolog\<rparr>"

section \<open>Properties\<close>

subsection \<open>The two constructors as equations\<close>

lemmas ex_defs = ex_snapshot_def ex_repo_def ex_Storer_def ex_Log_def ex_touches_def ex_tree_def
  ex_root_def ex_docs_def ex_trees_def ex_commit1_def ex_commit6_def ex_blob_a_def git_FindEntry_def
  ex_repo_nolog_def ex_snapshot_nolog_def

lemmas lib_defs = Clean_def backtrack_def Join_def Base_def HasPrefix_def ToOSFileMode_def Dir_def
  Regular_def Submodule_def Deprecated_def Executable_def Symlink_def ModePerm_def ModeDir_def
  ModeSymlink_def errors_Is_def GetObject_def Next_def IsFile_def

lemmas stat_defs = stat_fields_def Object_Name_def Object_Size_def Object_Mode_def
  Object_ModTime_def Object_IsDir_def Stat_def

lemmas query_defs = first_commit_def history_query_def HasPrefix_def directory_like_def GetObject_def

lemma NewFileInfo_eq:
  "NewFileInfo c h rp fn m =
     (case ToOSFileMode m of Inl err \<Rightarrow> Inl err | Inr osMode \<Rightarrow>
      case Storer rp h of Inl err \<Rightarrow> Inl err | Inr obj \<Rightarrow>
      if obj = Tag_Object then Inl ErrCannotGetFileInfo
      else map_sum id (entry_of c h rp fn osMode obj None [])
             (first_commit rp (history_query c (directory_like obj) fn)))"
proof (cases "ToOSFileMode m")
  case Inl
  then show ?thesis by (simp add: NewFileInfo_def)
next
  case osMode: (Inr osMode)
  show ?thesis
  proof (cases "Storer rp h")
    case Inl
    then show ?thesis by (simp add: NewFileInfo_def GetObject_def osMode)
  next
    case (Inr obj)
    then show ?thesis
      by (cases obj)
        (simp_all add: NewFileInfo_def osMode query_defs entry_of_def split: sum.splits)
  qed
qed

lemma NewFile_eq:
  "NewFile c h rp fn m =
     (case ToOSFileMode m of Inl err \<Rightarrow> Inl err | Inr osMode \<Rightarrow>
      case Storer rp h of Inl err \<Rightarrow> Inl err | Inr obj \<Rightarrow>
      case opened obj of Inl err \<Rightarrow> Inl err | Inr (r', te') \<Rightarrow>
        map_sum id (entry_of c h rp fn osMode obj r' te')
          (first_commit rp (history_query c (directory_like obj) fn)))"
proof (cases "ToOSFileMode m")
  case Inl
  then show ?thesis by (simp add: NewFile_def)
next
  case osMode: (Inr osMode)
  show ?thesis
  proof (cases "Storer rp h")
    case Inl
    then show ?thesis by (simp add: NewFile_def GetObject_def osMode)
  next
    case (Inr obj)
    then show ?thesis
      by (cases obj)
        (simp_all add: NewFile_def osMode query_defs entry_of_def opened_def split: sum.splits)
  qed
qed

lemma map_sum_id_Inr: "map_sum id g x = Inr y \<longleftrightarrow> (\<exists>k. x = Inr k \<and> y = g k)"
  by (cases x) auto

lemma map_sum_id_Inl: "map_sum id g x = Inl e \<longleftrightarrow> x = Inl e"
  by (cases x) auto

lemma NewFileInfo_InrD:
  assumes "NewFileInfo c h rp fn m = Inr f"
  obtains osMode obj k where "ToOSFileMode m = Inr osMode" "Storer rp h = Inr obj"
    "obj \<noteq> Tag_Object" "first_commit rp (history_query c (directory_like obj) fn) = Inr k"
    "f = entry_of c h rp fn osMode obj None [] k"
  using assms unfolding NewFileInfo_eq
  by (auto split: sum.splits if_splits simp: map_sum_id_Inr)

lemma NewFile_InrD:
  assumes "NewFile c h rp fn m = Inr f"
  obtains osMode obj r' te' k where "ToOSFileMode m = Inr osMode" "Storer rp h = Inr obj"
    "opened obj = Inr (r', te')" "first_commit rp (history_query c (directory_like obj) fn) = Inr k"
    "f = entry_of c h rp fn osMode obj r' te' k"
  using assms unfolding NewFile_eq
  by (auto split: sum.splits if_splits simp: map_sum_id_Inr)

subsection \<open>The directory flag and the size\<close>

text \<open>
  C4. An entry materialised by either constructor is a directory exactly when the object
  its hash resolves to is a tree or a commit, and a directory has size 0; \<^verbatim>\<open>Stat\<close> returns
  the entry itself.
\<close>

theorem isDir_iff_directory_like:
  assumes "NewFileInfo c h rp fn m = Inr f \<or> NewFile c h rp fn m = Inr f"
    and "Stat f = Inr st"
  shows "\<exists>obj. GetObject (Storer rp) h = Inr obj \<and>
           (Object_IsDir st \<longleftrightarrow> directory_like obj) \<and>
           (Object_IsDir st \<longrightarrow> Object_Size st = 0)"
proof -
  from assms(2) have st: "st = f" by (simp add: Stat_def)
  from assms(1) show ?thesis
  proof
    assume "NewFileInfo c h rp fn m = Inr f"
    then show ?thesis
      by (rule NewFileInfo_InrD)
        (auto simp: st GetObject_def Object_IsDir_def Object_Size_def entry_of_def
           directory_like_def split: git_Object.splits)
  next
    assume "NewFile c h rp fn m = Inr f"
    then show ?thesis
      by (rule NewFile_InrD)
        (auto simp: st GetObject_def Object_IsDir_def Object_Size_def entry_of_def
           directory_like_def split: git_Object.splits)
  qed
qed

theorem isDir_iff_directory_like_witness:
  "(\<exists>obj. GetObject (Storer ex_repo) 3 = Inr obj \<and> directory_like obj) \<and>
   map_sum id Object_IsDir (NewFileInfo 1 3 ex_repo ''docs'' Dir) = Inr True \<and>
   map_sum id Object_Size (NewFileInfo 1 3 ex_repo ''docs'' Dir) = Inr 0"
proof -
  obtain f where f: "NewFileInfo 1 3 ex_repo ''docs'' Dir = Inr f" and d: "isDir f"
    by (simp add: NewFileInfo_def ex_defs lib_defs)
  have s: "Stat f = Inr f" by (simp add: Stat_def)
  from isDir_iff_directory_like [OF disjI1 [OF f] s] d show ?thesis
    by (auto simp: f Object_IsDir_def)
qed

subsection \<open>The light and the heavy constructor\<close>

lemma opened_with_Reader_dir:
  "directory_like (with_Reader q obj) = directory_like obj"
  by (cases obj) (simp_all add: with_Reader_def directory_like_def)

lemma entry_of_with_Reader:
  "stat_fields (entry_of c h rp' fn osMode (with_Reader q obj) r' te' k) =
   stat_fields (entry_of c h rp fn osMode obj r'' te'' k)"
  by (cases obj) (simp_all add: with_Reader_def directory_like_def entry_of_def stat_defs)

lemma first_commit_Readers_replaced:
  "first_commit (Readers_replaced q rp) opts = first_commit rp opts"
  by (simp add: first_commit_def Readers_replaced_def)

text \<open>
  C5. Where \<^verbatim>\<open>NewFileInfo\<close> and \<^verbatim>\<open>NewFile\<close> both succeed on the same commit, hash, path and
  mode, the two entries have the same name, size, mode, modification time and directory
  flag. The light entry has no stream and no child list, and its outcome is the same
  whatever \<^verbatim>\<open>Blob.Reader()\<close> would return, also an error: it does not open the content.
\<close>

theorem light_heavy_same_stat:
  assumes "NewFileInfo c h rp fn m = Inr a" and "NewFile c h rp fn m = Inr b"
  shows "stat_fields a = stat_fields b \<and> rdr a = None \<and> te a = [] \<and>
         map_sum id stat_fields (NewFileInfo c h (Readers_replaced q rp) fn m) = Inr (stat_fields a)"
proof -
  from assms(1) obtain osMode obj k where
    m: "ToOSFileMode m = Inr osMode" and obj: "Storer rp h = Inr obj" and
    tag: "obj \<noteq> Tag_Object" and
    k: "first_commit rp (history_query c (directory_like obj) fn) = Inr k" and
    a: "a = entry_of c h rp fn osMode obj None [] k"
    by (rule NewFileInfo_InrD)
  from assms(2) obtain osMode' obj' r' te' k' where
    m': "ToOSFileMode m = Inr osMode'" and obj': "Storer rp h = Inr obj'" and
    k': "first_commit rp (history_query c (directory_like obj') fn) = Inr k'" and
    b': "b = entry_of c h rp fn osMode' obj' r' te' k'"
    by (rule NewFile_InrD)
  from m m' have "osMode' = osMode" by simp
  moreover from obj obj' have o: "obj' = obj" by simp
  moreover from k k' o have "k' = k" by simp
  ultimately have b: "b = entry_of c h rp fn osMode obj r' te' k"
    using b' by simp
  have same: "stat_fields a = stat_fields b"
    by (simp add: a b entry_of_def stat_defs)
  have light: "rdr a = None" "te a = []"
    by (simp_all add: a entry_of_def)
  have tag': "with_Reader q obj \<noteq> Tag_Object"
    using tag by (cases obj) (simp_all add: with_Reader_def)
  have storer: "Storer (Readers_replaced q rp) h = Inr (with_Reader q obj)"
    by (simp add: Readers_replaced_def obj)
  have "NewFileInfo c h (Readers_replaced q rp) fn m =
        Inr (entry_of c h (Readers_replaced q rp) fn osMode (with_Reader q obj) None [] k)"
    unfolding NewFileInfo_eq
    by (simp add: m storer tag' first_commit_Readers_replaced opened_with_Reader_dir k)
  then have "map_sum id stat_fields (NewFileInfo c h (Readers_replaced q rp) fn m) =
             Inr (stat_fields a)"
    by (simp add: a entry_of_with_Reader [where r'' = None and te'' = "[]" and rp = rp])
  with same light show ?thesis by simp
qed

theorem light_heavy_same_stat_witness:
  "map_sum id stat_fields (NewFileInfo 1 4 ex_repo ''a.go'' Regular) = Inr (''a.go'', 3, 420, 100, False) \<and>
   map_sum id stat_fields (NewFile 1 4 ex_repo ''a.go'' Regular) = Inr (''a.go'', 3, 420, 100, False) \<and>
   map_sum id rdr (NewFileInfo 1 4 ex_repo ''a.go'' Regular) = Inr None \<and>
   map_sum id rdr (NewFile 1 4 ex_repo ''a.go'' Regular) = Inr (Some [1, 2, 3]) \<and>
   map_sum id stat_fields
     (NewFileInfo 1 4 (Readers_replaced (Inl ErrObjectNotFound) ex_repo) ''a.go'' Regular) =
     Inr (''a.go'', 3, 420, 100, False)"
proof -
  obtain a where a: "NewFileInfo 1 4 ex_repo ''a.go'' Regular = Inr a"
    and sa: "stat_fields a = (''a.go'', 3, 420, 100, False)"
    by (simp add: NewFileInfo_def ex_defs lib_defs stat_defs)
  obtain b where b: "NewFile 1 4 ex_repo ''a.go'' Regular = Inr b"
    and rb: "rdr b = Some [1, 2, 3]"
    by (simp add: NewFile_def ex_defs lib_defs)
  from light_heavy_same_stat [OF a b, of "Inl ErrObjectNotFound"] sa rb
  show ?thesis by (simp add: a b)
qed

subsection \<open>What a successful open went through\<close>

lemma Open_InrD:
  assumes "Open t name = Inr f"
  obtains h m where "NewFile (Tree_hash t) h (Tree_repo t) (Clean name) m = Inr f"
  using assms
  by (auto simp: Open_def split: if_splits sum.splits)

lemma File_Open_InrD:
  assumes "File_Open t name = Inr g"
  obtains k where
    "first_commit (Tree_repo t) \<lparr>From = Tree_hash t, PathFilter = None, FileName = Some name\<rparr> = Inr k"
    "fi_modTime (fi g) = When (Committer k)"
  using assms
  by (auto simp: File_Open_def first_commit_def split: sum.splits)

lemma ex_first_docs:
  "first_commit ex_repo (history_query 1 True ''docs'') = Inr ex_commit1"
  by (simp add: first_commit_def history_query_def ex_repo_def ex_Log_def ex_touches_def Next_def)

lemma ex_first_a:
  "first_commit ex_repo (history_query 1 False ''a.go'') = Inr ex_commit6"
  by (simp add: first_commit_def history_query_def ex_repo_def ex_Log_def ex_touches_def Next_def)

lemma ex_File_Open_a:
  "File_Open ex_snapshot ''a.go'' =
     Inr \<lparr>fi = \<lparr>fi_name = ''a.go'', fi_size = 3, fi_mode = 420, fi_modTime = 150, fi_isDir = False\<rparr>,
          File_r = Some [1, 2, 3]\<rparr>"
  by (simp add: File_Open_def ex_defs lib_defs)

subsection \<open>What \<^verbatim>\<open>NewFS\<close> establishes\<close>

lemma NewFS_InrD:
  assumes "NewFS rp revision = Inr t"
  obtains k where "Storer rp (Tree_hash t) = Inr (Commit_Object k)"
    "Commit_Tree k = Inr (Tree_tree t)" "Tree_repo t = rp"
    "ResolveRevision rp revision = Inr (Tree_hash t)"
  using assms
  by (auto simp: NewFS_def CommitObject_def split: sum.splits git_Object.splits)

lemma ToOSFileMode_Dir: "ToOSFileMode Dir = Inr (ModePerm OR ModeDir)"
  by (simp add: ToOSFileMode_def)

lemma ex_NewFS: "NewFS ex_repo ''master'' = Inr ex_snapshot"
  by (simp add: NewFS_def CommitObject_def ex_repo_def ex_Storer_def ex_commit1_def ex_snapshot_def)

lemma ex_NewFS_nolog: "NewFS ex_repo_nolog ''master'' = Inr ex_snapshot_nolog"
  by (simp add: NewFS_def CommitObject_def ex_repo_def ex_Storer_def ex_commit1_def ex_snapshot_def
      ex_repo_nolog_def ex_snapshot_nolog_def)

lemma ex_first_root:
  "first_commit ex_repo \<lparr>From = 1, PathFilter = None, FileName = None\<rparr> = Inr ex_commit1"
  by (simp add: first_commit_def ex_repo_def ex_Log_def ex_touches_def Next_def)

subsection \<open>Missing paths\<close>

text \<open>
  C3. \<^verbatim>\<open>Open\<close> turns \<^verbatim>\<open>ErrEntryNotFound\<close> and \<^verbatim>\<open>ErrFileNotFound\<close> into \<^verbatim>\<open>fs.ErrNotExist\<close>, but
  not \<^verbatim>\<open>ErrDirectoryNotFound\<close>: for \<^verbatim>\<open>missing/path\<close>, whose first segment is absent from the
  root tree, it returns go-git's error as it is, while \<^verbatim>\<open>missing\<close> alone gives
  \<^verbatim>\<open>fs.ErrNotExist\<close>.
\<close>

theorem Open_missing_directory:
  "git_FindEntry ex_trees ex_root ''missing/path'' = Inl ErrDirectoryNotFound \<and>
   Open ex_snapshot ''missing/path'' = Inl ErrDirectoryNotFound \<and>
   git_FindEntry ex_trees ex_root ''missing'' = Inl ErrEntryNotFound \<and>
   Open ex_snapshot ''missing'' = Inl ErrNotExist"
  by (simp add: Open_def ex_defs lib_defs)

subsection \<open>Directory listing\<close>

lemma child_te: "child (ob\<lparr>te := x\<rparr>) v = child ob v"
  by (simp add: child_def)

lemma child_te_fun: "child (ob\<lparr>te := x\<rparr>) = child ob"
  by (rule ext) (simp add: child_def)

lemma ReadDir_loop_Cons:
  "ReadDir_loop ob (v # vs) =
     (case child ob v of Inl err \<Rightarrow> Inl err
      | Inr x \<Rightarrow> (case ReadDir_loop ob vs of Inl err \<Rightarrow> Inl err | Inr xs \<Rightarrow> Inr (x # xs)))"
  by (simp add: child_def)

declare ReadDir_loop.simps(2) [simp del]

lemma ReadDir_loop_te: "ReadDir_loop (ob\<lparr>te := x\<rparr>) vs = ReadDir_loop ob vs"
proof (induction vs)
  case Nil
  show ?case by simp
next
  case (Cons v vs)
  show ?case
    by (cases "child ob v") (simp_all add: ReadDir_loop_Cons child_te Cons.IH)
qed

lemma ReadDir_loop_InrD:
  "ReadDir_loop ob vs = Inr xs \<Longrightarrow> map (child ob) vs = map Inr xs"
proof (induction vs arbitrary: xs)
  case Nil
  then show ?case by simp
next
  case (Cons v vs)
  from Cons.prems obtain y ys where
    "child ob v = Inr y" "ReadDir_loop ob vs = Inr ys" "xs = y # ys"
    by (auto simp: ReadDir_loop_Cons split: sum.splits)
  with Cons.IH [of ys] show ?case by simp
qed

lemma ReadDir_loop_InrI:
  "map (child ob) vs = map Inr xs \<Longrightarrow> ReadDir_loop ob vs = Inr xs"
proof (induction vs arbitrary: xs)
  case Nil
  then show ?case by simp
next
  case (Cons v vs)
  from Cons.prems obtain y ys where
    "xs = y # ys" "child ob v = Inr y" "map (child ob) vs = map Inr ys"
    by (cases xs) auto
  with Cons.IH [of ys] show ?case by (simp add: ReadDir_loop_Cons)
qed

lemma ReadDir_loop_Inr_iff:
  "ReadDir_loop ob vs = Inr xs \<longleftrightarrow> map (child ob) vs = map Inr xs"
  using ReadDir_loop_InrD ReadDir_loop_InrI by blast

lemma ReadDir_loop_InlD:
  "ReadDir_loop ob vs = Inl e \<Longrightarrow> \<exists>v\<in>set vs. child ob v = Inl e"
proof (induction vs)
  case Nil
  then show ?case by simp
next
  case (Cons v vs)
  then show ?case
    by (auto simp: ReadDir_loop_Cons split: sum.splits)
qed

lemma ReadDir_loop_InlI:
  "v \<in> set vs \<Longrightarrow> child ob v = Inl e \<Longrightarrow> \<exists>e'. ReadDir_loop ob vs = Inl e'"
proof (induction vs)
  case Nil
  then show ?case by simp
next
  case (Cons w vs)
  then show ?case
    by (auto simp: ReadDir_loop_Cons split: sum.splits)
qed

lemma length_sliced:
  "length (sliced ob n) =
     (if n < 0 \<or> int (length (te ob)) < n then length (te ob) else nat n)"
  by (auto simp: sliced_def)

lemma sliced_append: "sliced ob n @ drop (length (sliced ob n)) (te ob) = te ob"
  unfolding length_sliced by (simp add: sliced_def)

lemma ReadDir_eq:
  assumes "isDir ob" and "te ob \<noteq> []"
  shows "ReadDir ob n =
     (case ReadDir_loop ob (sliced ob n) of
        Inl err \<Rightarrow> (([], Some err), ob\<lparr>te := drop (length (sliced ob n)) (te ob)\<rparr>)
      | Inr ret \<Rightarrow> ((ret, None), ob\<lparr>te := drop (length (sliced ob n)) (te ob)\<rparr>))"
proof -
  define k where "k = (if n < 0 \<or> int (length (te ob)) < n then length (te ob) else nat n)"
  have s: "sliced ob n = take k (te ob)" by (simp add: sliced_def k_def)
  have l: "length (sliced ob n) = k" by (simp add: length_sliced k_def)
  have "ReadDir ob n =
     (case ReadDir_loop (ob\<lparr>te := drop k (te ob)\<rparr>) (take k (te ob)) of
        Inl err \<Rightarrow> (([], Some err), ob\<lparr>te := drop k (te ob)\<rparr>)
      | Inr ret \<Rightarrow> ((ret, None), ob\<lparr>te := drop k (te ob)\<rparr>))"
    unfolding ReadDir_def Let_def k_def using assms by simp
  then have "ReadDir ob n =
     (case ReadDir_loop ob (sliced ob n) of
        Inl err \<Rightarrow> (([], Some err), ob\<lparr>te := drop k (te ob)\<rparr>)
      | Inr ret \<Rightarrow> ((ret, None), ob\<lparr>te := drop k (te ob)\<rparr>))"
    by (simp only: s ReadDir_loop_te)
  then show ?thesis
    by (simp only: l)
qed

lemma ReadDir_empty: "isDir ob \<Longrightarrow> te ob = [] \<Longrightarrow> ReadDir ob n = (([], Some EOF), ob)"
  by (simp add: ReadDir_def)

text \<open>One call: what it returns is the materialisation of a prefix of the cursor, or nothing.\<close>

lemma ReadDir_step:
  assumes "isDir ob"
  obtains vs where "map Inr (fst (fst (ReadDir ob n))) = map (child ob) vs"
    "vs = [] \<or> vs = sliced ob n"
    "te (snd (ReadDir ob n)) = drop (length (sliced ob n)) (te ob)"
    "isDir (snd (ReadDir ob n))" "child (snd (ReadDir ob n)) = child ob"
proof (cases "te ob = []")
  case True
  with assms have r: "ReadDir ob n = (([], Some EOF), ob)" by (rule ReadDir_empty)
  show ?thesis
  proof (rule that [of "[]"])
    show "map Inr (fst (fst (ReadDir ob n))) = map (child ob) []" by (simp add: r)
    show "[] = [] \<or> [] = sliced ob n" by simp
    show "te (snd (ReadDir ob n)) = drop (length (sliced ob n)) (te ob)" by (simp add: r True)
    show "isDir (snd (ReadDir ob n))" by (simp add: r assms)
    show "child (snd (ReadDir ob n)) = child ob" by (simp add: r)
  qed
next
  case False
  note eq = ReadDir_eq [OF assms False, of n]
  let ?ob' = "ob\<lparr>te := drop (length (sliced ob n)) (te ob)\<rparr>"
  show ?thesis
  proof (cases "ReadDir_loop ob (sliced ob n)")
    case (Inl e)
    have r: "ReadDir ob n = (([], Some e), ?ob')" by (simp only: eq Inl sum.case)
    show ?thesis
    proof (rule that [of "[]"])
      show "map Inr (fst (fst (ReadDir ob n))) = map (child ob) []" by (simp add: r)
      show "[] = [] \<or> [] = sliced ob n" by simp
      show "te (snd (ReadDir ob n)) = drop (length (sliced ob n)) (te ob)" by (simp add: r)
      show "isDir (snd (ReadDir ob n))" by (simp add: r assms)
      show "child (snd (ReadDir ob n)) = child ob" by (simp add: r child_te_fun)
    qed
  next
    case (Inr ret)
    have r: "ReadDir ob n = ((ret, None), ?ob')" by (simp only: eq Inr sum.case)
    have m: "map (child ob) (sliced ob n) = map Inr ret"
      using Inr by (simp only: ReadDir_loop_Inr_iff)
    show ?thesis
    proof (rule that [of "sliced ob n"])
      show "map Inr (fst (fst (ReadDir ob n))) = map (child ob) (sliced ob n)" by (simp add: r m)
      show "sliced ob n = [] \<or> sliced ob n = sliced ob n" by simp
      show "te (snd (ReadDir ob n)) = drop (length (sliced ob n)) (te ob)" by (simp add: r)
      show "isDir (snd (ReadDir ob n))" by (simp add: r assms)
      show "child (snd (ReadDir ob n)) = child ob" by (simp add: r child_te_fun)
    qed
  qed
qed

lemma ReadDir_seq_Cons:
  "ReadDir_seq ob (m # ms) =
     (fst (ReadDir ob m) # fst (ReadDir_seq (snd (ReadDir ob m)) ms),
      snd (ReadDir_seq (snd (ReadDir ob m)) ms))"
  by (simp split: prod.splits)

declare ReadDir_seq.simps(2) [simp del]

lemma returned_Cons: "returned (r # rs) = fst r @ returned rs"
  by (simp add: returned_def)

lemma ReadDir_seq_subseq:
  "isDir ob \<Longrightarrow>
   \<exists>vs. subseq vs (te ob) \<and> map Inr (returned (fst (ReadDir_seq ob ms))) = map (child ob) vs"
proof (induction ms arbitrary: ob)
  case Nil
  show ?case by (auto simp: returned_def)
next
  case (Cons m ms)
  let ?ob' = "snd (ReadDir ob m)"
  from Cons.prems obtain vs where
    vs: "map Inr (fst (fst (ReadDir ob m))) = map (child ob) vs" and
    pre: "vs = [] \<or> vs = sliced ob m" and
    t: "te ?ob' = drop (length (sliced ob m)) (te ob)" and
    d: "isDir ?ob'" and c: "child ?ob' = child ob"
    by (rule ReadDir_step)
  from Cons.IH [OF d] obtain ws where
    ws: "subseq ws (te ?ob')" "map Inr (returned (fst (ReadDir_seq ?ob' ms))) = map (child ?ob') ws"
    by blast
  from pre have "subseq (vs @ ws) (sliced ob m @ te ?ob')"
  proof
    assume "vs = []"
    with ws(1) show ?thesis by (simp add: subseq_drop_many)
  next
    assume "vs = sliced ob m"
    with ws(1) show ?thesis by (simp add: subseq_append')
  qed
  then have "subseq (vs @ ws) (te ob)"
    by (simp only: t sliced_append)
  moreover have "map Inr (returned (fst (ReadDir_seq ob (m # ms)))) = map (child ob) (vs @ ws)"
    by (simp add: ReadDir_seq_Cons returned_Cons vs ws(2) c)
  ultimately show ?case by blast
qed

lemma ReadDir_all_ok:
  assumes "isDir ob" and "\<forall>v\<in>set (te ob). \<exists>x. child ob v = Inr x"
  shows "map Inr (fst (fst (ReadDir ob n))) @ map (child ob) (te (snd (ReadDir ob n))) =
         map (child ob) (te ob)"
proof (cases "te ob = []")
  case True
  with assms(1) show ?thesis by (simp add: ReadDir_empty)
next
  case False
  have "\<not> (\<exists>e. ReadDir_loop ob (sliced ob n) = Inl e)"
  proof
    assume "\<exists>e. ReadDir_loop ob (sliced ob n) = Inl e"
    then obtain e where "ReadDir_loop ob (sliced ob n) = Inl e" ..
    then obtain v where "v \<in> set (sliced ob n)" "child ob v = Inl e"
      by (auto dest: ReadDir_loop_InlD)
    moreover have "set (sliced ob n) \<subseteq> set (te ob)"
      by (simp add: sliced_def set_take_subset)
    ultimately show False using assms(2) by fastforce
  qed
  then obtain ret where ret: "ReadDir_loop ob (sliced ob n) = Inr ret"
    by (cases "ReadDir_loop ob (sliced ob n)") auto
  then have m: "map (child ob) (sliced ob n) = map Inr ret"
    by (simp only: ReadDir_loop_Inr_iff)
  have "map Inr ret @ map (child ob) (drop (length (sliced ob n)) (te ob)) =
        map (child ob) (sliced ob n @ drop (length (sliced ob n)) (te ob))"
    by (simp add: m)
  then show ?thesis
    by (simp add: ReadDir_eq [OF assms(1) False] ret sliced_append)
qed

lemma ReadDir_seq_all_ok:
  "isDir ob \<Longrightarrow> \<forall>v\<in>set (te ob). \<exists>x. child ob v = Inr x \<Longrightarrow>
   map Inr (returned (fst (ReadDir_seq ob ms))) @ map (child ob) (te (snd (ReadDir_seq ob ms))) =
   map (child ob) (te ob)"
proof (induction ms arbitrary: ob)
  case Nil
  show ?case by (simp add: returned_def)
next
  case (Cons m ms)
  let ?ob' = "snd (ReadDir ob m)"
  from Cons.prems(1) obtain vs where
    t: "te ?ob' = drop (length (sliced ob m)) (te ob)" and
    d: "isDir ?ob'" and c: "child ?ob' = child ob"
    by (rule ReadDir_step)
  have "set (te ?ob') \<subseteq> set (te ob)"
    by (simp add: t set_drop_subset)
  with Cons.prems(2) have ok: "\<forall>v\<in>set (te ?ob'). \<exists>x. child ?ob' v = Inr x"
    by (auto simp: c)
  have ih: "map Inr (returned (fst (ReadDir_seq ?ob' ms))) @
              map (child ob) (te (snd (ReadDir_seq ?ob' ms))) = map (child ob) (te ?ob')"
    using Cons.IH [OF d ok] by (simp only: c)
  have "map Inr (returned (fst (ReadDir_seq ob (m # ms)))) @
          map (child ob) (te (snd (ReadDir_seq ob (m # ms)))) =
        map Inr (fst (fst (ReadDir ob m))) @
          (map Inr (returned (fst (ReadDir_seq ?ob' ms))) @
           map (child ob) (te (snd (ReadDir_seq ?ob' ms))))"
    by (simp add: ReadDir_seq_Cons returned_Cons)
  also have "\<dots> = map Inr (fst (fst (ReadDir ob m))) @ map (child ob) (te ?ob')"
    by (simp only: ih)
  also have "\<dots> = map (child ob) (te ob)"
    using Cons.prems by (rule ReadDir_all_ok)
  finally show ?case .
qed

lemma ex_Open_root: "Open ex_snapshot ''.'' = Inr ex_root_dir"
  by (simp add: Open_def NewFile_def ex_root_dir_def ex_defs lib_defs)

lemma ex_Open_docs: "Open ex_snapshot ''docs'' = Inr ex_docs_dir"
  by (simp add: Open_def NewFile_def ex_docs_dir_def ex_defs lib_defs)

lemma ex_dirs: "isDir ex_root_dir" "isDir ex_docs_dir" "\<not> isDir ex_a_info"
  "te ex_root_dir = ex_root" "te ex_docs_dir = ex_docs"
  by (simp_all add: ex_root_dir_def ex_docs_dir_def ex_a_info_def)

lemma ex_child_vendor:
  "child ex_root_dir \<lparr>Name = ''vendor'', Mode = Submodule, Hash = 9\<rparr> = Inl ErrObjectNotFound"
  by (simp add: child_def NewFileInfo_def ex_root_dir_def ex_defs lib_defs)

lemma ex_child_a:
  "child ex_root_dir \<lparr>Name = ''a.go'', Mode = Regular, Hash = 4\<rparr> = Inr ex_a_info"
  by (simp add: child_def NewFileInfo_def ex_root_dir_def ex_a_info_def ex_defs lib_defs)

lemma ex_children_docs:
  "map_sum id fullName (child ex_docs_dir \<lparr>Name = ''readme.md'', Mode = Regular, Hash = 5\<rparr>) =
     Inr ''docs/readme.md''"
  "map_sum id fullName (child ex_docs_dir \<lparr>Name = ''guide.md'', Mode = Regular, Hash = 8\<rparr>) =
     Inr ''docs/guide.md''"
  by (simp_all add: child_def NewFileInfo_def ex_docs_dir_def ex_defs lib_defs)

lemma ex_seq_root:
  "map names_of (fst (ReadDir_seq ex_root_dir [1, - 1, - 1])) =
     [([], Some ErrObjectNotFound), ([''a.go'', ''docs''], None), ([], Some EOF)]"
  by (simp add: ReadDir_seq.simps ReadDir_def ReadDir_loop.simps names_of_def NewFileInfo_def
      ex_root_dir_def ex_defs lib_defs)

lemma ex_seq_docs:
  "map names_of (fst (ReadDir_seq ex_docs_dir [1, 0, 5])) =
     [([''docs/readme.md''], None), ([], None), ([''docs/guide.md''], None)]"
  "te (snd (ReadDir_seq ex_docs_dir [1, 0, 5])) = []"
  by (simp_all add: ReadDir_seq.simps ReadDir_def ReadDir_loop.simps names_of_def NewFileInfo_def
      ex_docs_dir_def ex_defs lib_defs)

lemma ex_seq_docs_drained:
  "map names_of (fst (ReadDir_seq ex_docs_dir [- 1, 0])) =
     [([''docs/readme.md'', ''docs/guide.md''], None), ([], Some EOF)]"
  "te (snd (ReadDir_seq ex_docs_dir [- 1])) = []"
  by (simp_all add: ReadDir_seq.simps ReadDir_def ReadDir_loop.simps names_of_def NewFileInfo_def
      ex_docs_dir_def ex_defs lib_defs)

text \<open>
  C2, as amended. On a directory whose cursor children all materialise, a sequence of
  \<^verbatim>\<open>ReadDir\<close> calls that empties the cursor returns, over all calls, the children one by
  one in the stored order, whatever the counts \<open>ms\<close> are: the concatenated results are
  the materialisations of the cursor, each once.
\<close>

theorem ReadDir_seq_all_children:
  assumes "isDir ob" and "\<forall>v\<in>set (te ob). \<exists>x. child ob v = Inr x"
    and "te (snd (ReadDir_seq ob ms)) = []"
  shows "map Inr (returned (fst (ReadDir_seq ob ms))) = map (child ob) (te ob)"
  using ReadDir_seq_all_ok [OF assms(1,2), of ms] assms(3) by simp

theorem ReadDir_seq_all_children_witness:
  "isDir ex_docs_dir \<and> te (snd (ReadDir_seq ex_docs_dir [1, 0, 5])) = [] \<and>
   map names_of (fst (ReadDir_seq ex_docs_dir [1, 0, 5])) =
     [([''docs/readme.md''], None), ([], None), ([''docs/guide.md''], None)] \<and>
   map Inr (returned (fst (ReadDir_seq ex_docs_dir [1, 0, 5]))) =
     map (child ex_docs_dir) (te ex_docs_dir)"
proof -
  have ok: "\<forall>v\<in>set (te ex_docs_dir). \<exists>x. child ex_docs_dir v = Inr x"
    using ex_children_docs by (auto simp: ex_dirs ex_docs_def map_sum_id_Inr)
  from ReadDir_seq_all_children [OF ex_dirs(2) ok ex_seq_docs(2)]
  show ?thesis by (simp add: ex_dirs ex_seq_docs)
qed

text \<open>
  C2 as stated fails: the root has three children; the first call fails on the submodule
  \<^verbatim>\<open>vendor\<close>, whose commit is not in the store, and the calls up to the end of the
  sequence return two children only.
\<close>

theorem ReadDir_seq_loses_children:
  "Open ex_snapshot ''.'' = Inr ex_root_dir \<and> length (te ex_root_dir) = 3 \<and>
   map names_of (fst (ReadDir_seq ex_root_dir [1, - 1, - 1])) =
     [([], Some ErrObjectNotFound), ([''a.go'', ''docs''], None), ([], Some EOF)]"
  by (simp add: ex_Open_root ex_seq_root ex_dirs ex_root_def)

text \<open>
  C7. When the materialisation of a child among those a call cuts off the cursor fails,
  the call returns an error (that of a failing child) and the nil slice.
\<close>

theorem ReadDir_child_failure:
  assumes "isDir ob" and "v \<in> set (sliced ob n)" and "child ob v = Inl e"
  shows "\<exists>e'. fst (ReadDir ob n) = ([], Some e') \<and> (\<exists>w\<in>set (sliced ob n). child ob w = Inl e')"
proof -
  from assms(2) have ne: "te ob \<noteq> []" by (auto simp: sliced_def)
  from assms(2,3) obtain e' where e': "ReadDir_loop ob (sliced ob n) = Inl e'"
    by (blast dest: ReadDir_loop_InlI)
  then have "\<exists>w\<in>set (sliced ob n). child ob w = Inl e'" by (rule ReadDir_loop_InlD)
  moreover have "fst (ReadDir ob n) = ([], Some e')"
    by (simp add: ReadDir_eq [OF assms(1) ne] e')
  ultimately show ?thesis by blast
qed

theorem ReadDir_child_failure_witness:
  "isDir ex_root_dir \<and>
   \<lparr>Name = ''vendor'', Mode = Submodule, Hash = 9\<rparr> \<in> set (sliced ex_root_dir 2) \<and>
   child ex_root_dir \<lparr>Name = ''vendor'', Mode = Submodule, Hash = 9\<rparr> = Inl ErrObjectNotFound \<and>
   (\<exists>e'. fst (ReadDir ex_root_dir 2) = ([], Some e'))"
proof -
  have s: "\<lparr>Name = ''vendor'', Mode = Submodule, Hash = 9\<rparr> \<in> set (sliced ex_root_dir 2)"
    by (simp add: sliced_def ex_dirs ex_root_def)
  from ReadDir_child_failure [OF ex_dirs(1) s ex_child_vendor]
  show ?thesis using s by (auto simp: ex_dirs ex_child_vendor)
qed

text \<open>
  C10. When a call fails because a child fails, the cursor has lost all the entries the
  call cut off, and whatever later calls on the handle return is materialised from
  entries after them, in order.
\<close>

theorem ReadDir_failure_consumes:
  assumes "isDir ob" and "v \<in> set (sliced ob n)" and "child ob v = Inl e"
  shows "(\<exists>e'. fst (ReadDir ob n) = ([], Some e')) \<and>
         te (snd (ReadDir ob n)) = drop (length (sliced ob n)) (te ob) \<and>
         (\<exists>vs. subseq vs (drop (length (sliced ob n)) (te ob)) \<and>
               map Inr (returned (fst (ReadDir_seq (snd (ReadDir ob n)) ms))) = map (child ob) vs)"
proof -
  from assms(2) have ne: "te ob \<noteq> []" by (auto simp: sliced_def)
  from assms(2,3) obtain e' where e': "ReadDir_loop ob (sliced ob n) = Inl e'"
    by (blast dest: ReadDir_loop_InlI)
  have 1: "fst (ReadDir ob n) = ([], Some e')"
    by (simp add: ReadDir_eq [OF assms(1) ne] e')
  from assms(1) obtain us where
    t: "te (snd (ReadDir ob n)) = drop (length (sliced ob n)) (te ob)" and
    d: "isDir (snd (ReadDir ob n))" and c: "child (snd (ReadDir ob n)) = child ob"
    by (rule ReadDir_step)
  from ReadDir_seq_subseq [OF d, of ms] obtain vs where
    "subseq vs (te (snd (ReadDir ob n)))"
    "map Inr (returned (fst (ReadDir_seq (snd (ReadDir ob n)) ms))) = map (child (snd (ReadDir ob n))) vs"
    by blast
  then have 3: "\<exists>vs. subseq vs (drop (length (sliced ob n)) (te ob)) \<and>
               map Inr (returned (fst (ReadDir_seq (snd (ReadDir ob n)) ms))) = map (child ob) vs"
    by (auto simp: t c)
  from 1 t 3 show ?thesis by blast
qed

theorem ReadDir_failure_consumes_witness:
  "isDir ex_root_dir \<and>
   \<lparr>Name = ''vendor'', Mode = Submodule, Hash = 9\<rparr> \<in> set (sliced ex_root_dir 2) \<and>
   child ex_root_dir \<lparr>Name = ''vendor'', Mode = Submodule, Hash = 9\<rparr> = Inl ErrObjectNotFound \<and>
   te (snd (ReadDir ex_root_dir 2)) = [\<lparr>Name = ''docs'', Mode = Dir, Hash = 3\<rparr>] \<and>
   (\<exists>vs. subseq vs [\<lparr>Name = ''docs'', Mode = Dir, Hash = 3\<rparr>] \<and>
      map Inr (returned (fst (ReadDir_seq (snd (ReadDir ex_root_dir 2)) [- 1, - 1]))) =
      map (child ex_root_dir) vs)"
proof -
  have s: "\<lparr>Name = ''vendor'', Mode = Submodule, Hash = 9\<rparr> \<in> set (sliced ex_root_dir 2)"
    by (simp add: sliced_def ex_dirs ex_root_def)
  have d: "drop (length (sliced ex_root_dir 2)) (te ex_root_dir) =
           [\<lparr>Name = ''docs'', Mode = Dir, Hash = 3\<rparr>]"
    by (simp add: sliced_def ex_dirs ex_root_def)
  from ReadDir_failure_consumes [OF ex_dirs(1) s ex_child_vendor, of "[- 1, - 1]"]
  show ?thesis using s unfolding d by (simp add: ex_dirs(1) ex_child_vendor)
qed

text \<open>
  C6, as amended. On a directory, \<^verbatim>\<open>ReadDir\<close> returns \<^verbatim>\<open>io.EOF\<close> whenever the cursor is
  empty, for every count; with entries left and the count 0 it returns the empty slice,
  no error, and leaves the handle as it is; with entries left it returns \<^verbatim>\<open>io.EOF\<close> only
  when the materialisation of a child fails with it.
\<close>

theorem ReadDir_EOF:
  assumes "isDir ob"
  shows "(te ob = [] \<longrightarrow> ReadDir ob n = (([], Some EOF), ob)) \<and>
         (te ob \<noteq> [] \<and> n = 0 \<longrightarrow> ReadDir ob n = (([], None), ob)) \<and>
         (te ob \<noteq> [] \<and> snd (fst (ReadDir ob n)) = Some EOF \<longrightarrow>
            (\<exists>v\<in>set (sliced ob n). child ob v = Inl EOF))"
proof (intro conjI impI)
  assume "te ob = []"
  with assms show "ReadDir ob n = (([], Some EOF), ob)" by (rule ReadDir_empty)
next
  assume "te ob \<noteq> [] \<and> n = 0"
  with assms show "ReadDir ob n = (([], None), ob)"
    by (simp add: ReadDir_def)
next
  assume a: "te ob \<noteq> [] \<and> snd (fst (ReadDir ob n)) = Some EOF"
  then have ne: "te ob \<noteq> []" ..
  from a have "ReadDir_loop ob (sliced ob n) = Inl EOF"
    by (cases "ReadDir_loop ob (sliced ob n)") (simp_all add: ReadDir_eq [OF assms ne])
  then show "\<exists>v\<in>set (sliced ob n). child ob v = Inl EOF" by (rule ReadDir_loop_InlD)
qed

theorem ReadDir_EOF_witness:
  "isDir ex_docs_dir \<and> te ex_docs_dir \<noteq> [] \<and>
   ReadDir ex_docs_dir 0 = (([], None), ex_docs_dir) \<and>
   isDir (snd (ReadDir_seq ex_docs_dir [- 1])) \<and> te (snd (ReadDir_seq ex_docs_dir [- 1])) = [] \<and>
   fst (ReadDir (snd (ReadDir_seq ex_docs_dir [- 1])) 7) = ([], Some EOF)"
proof -
  have ne: "ex_docs \<noteq> []" by (simp add: ex_docs_def)
  have d: "isDir (snd (ReadDir_seq ex_docs_dir [- 1]))"
    using ReadDir_step [OF ex_dirs(2), of "- 1"]
    by (simp add: ReadDir_seq_Cons)
  from ReadDir_EOF [OF ex_dirs(2), of 0] ReadDir_EOF [OF d, of 7]
  show ?thesis by (simp add: ne ex_dirs ex_seq_docs_drained d)
qed

text \<open>
  C6 as stated fails: after one call has emptied the cursor of \<^verbatim>\<open>docs\<close>, a call with the
  count 0 returns \<^verbatim>\<open>io.EOF\<close>.
\<close>

theorem ReadDir_EOF_at_zero:
  "Open ex_snapshot ''docs'' = Inr ex_docs_dir \<and>
   te (snd (ReadDir_seq ex_docs_dir [- 1])) = [] \<and>
   map names_of (fst (ReadDir_seq ex_docs_dir [- 1, 0])) =
     [([''docs/readme.md'', ''docs/guide.md''], None), ([], Some EOF)]"
  by (simp add: ex_Open_docs ex_seq_docs_drained)

subsection \<open>The wrong kind of entry\<close>

text \<open>
  C9. \<^verbatim>\<open>Read\<close> on a directory returns no bytes and \<^verbatim>\<open>fs.ErrPermission\<close>; \<^verbatim>\<open>ReadDir\<close> on an
  entry that is not a directory returns no entries and \<^verbatim>\<open>fs.ErrPermission\<close>; the handle is
  unchanged.
\<close>

theorem wrong_kind_PermissionDenied:
  "(isDir ob \<longrightarrow> Read ob k = Some (([], Some ErrPermission), ob)) \<and>
   (\<not> isDir ob \<longrightarrow> ReadDir ob n = (([], Some ErrPermission), ob))"
  by (simp add: Read_def ReadDir_def)

theorem wrong_kind_PermissionDenied_witness:
  "isDir ex_docs_dir \<and> Read ex_docs_dir 10 = Some (([], Some ErrPermission), ex_docs_dir) \<and>
   \<not> isDir ex_a_info \<and> ReadDir ex_a_info (- 1) = (([], Some ErrPermission), ex_a_info)"
  using wrong_kind_PermissionDenied [of ex_docs_dir 10] wrong_kind_PermissionDenied [of ex_a_info 0 "- 1"]
  by (simp add: ex_dirs)

subsection \<open>Opening the root\<close>

lemma Open_root_eq:
  assumes "Clean name = ''.''"
  shows "Open t name =
     (case Storer (Tree_repo t) (Tree_hash t) of
        Inl err \<Rightarrow> Inl err
      | Inr obj \<Rightarrow>
          (case opened obj of
             Inl err \<Rightarrow> Inl err
           | Inr (r', te') \<Rightarrow>
               map_sum id
                 (entry_of (Tree_hash t) (Tree_hash t) (Tree_repo t) ''.'' (ModePerm OR ModeDir)
                    obj r' te')
                 (first_commit (Tree_repo t)
                    (history_query (Tree_hash t) (directory_like obj) ''.''))))"
  by (simp add: Open_def assms NewFile_eq ToOSFileMode_Dir)

text \<open>
  C8, as amended. Opening a name that cleans to \<^verbatim>\<open>.\<close> looks nothing up: the result does
  not depend on the snapshot's tree, and \<^verbatim>\<open>fs.ErrNotExist\<close> comes back only when the read of
  the object at the snapshot's hash, the opening of that object (a commit's \<^verbatim>\<open>Tree()\<close>) or
  the history walk fails with it; an error of that read is returned as it is. An opened
  root has the commit identifier as its hash and the mode directory with all permission
  bits. When the object read at the snapshot's hash is a commit, the open fails with the
  error of its \<^verbatim>\<open>Tree()\<close> or of the unfiltered history walk, and otherwise yields a
  directory entry of size 0 whose children are the entries of that commit's tree.
\<close>

theorem Open_root:
  assumes "Clean name = ''.''"
  shows "Open (t\<lparr>Tree_tree := tt\<rparr>) name = Open t name \<and>
     (Storer (Tree_repo t) (Tree_hash t) = Inl err \<longrightarrow> Open t name = Inl err) \<and>
     (Open t name = Inl ErrNotExist \<longrightarrow>
        Storer (Tree_repo t) (Tree_hash t) = Inl ErrNotExist \<or>
        (\<exists>obj. Storer (Tree_repo t) (Tree_hash t) = Inr obj \<and>
           (opened obj = Inl ErrNotExist \<or>
            first_commit (Tree_repo t)
              (history_query (Tree_hash t) (directory_like obj) ''.'') = Inl ErrNotExist))) \<and>
     (Open t name = Inr f \<longrightarrow>
        commit f = Tree_hash t \<and> hash f = Tree_hash t \<and> fullName f = ''.'' \<and>
        mode f = ModePerm OR ModeDir) \<and>
     (Storer (Tree_repo t) (Tree_hash t) = Inr (Commit_Object k) \<longrightarrow>
        Open t name =
          (case Commit_Tree k of
             Inl err \<Rightarrow> Inl err
           | Inr tr \<Rightarrow>
               map_sum id
                 (\<lambda>c. \<lparr>commit = Tree_hash t, hash = Tree_hash t, repo = Tree_repo t,
                       fullName = ''.'', mode = ModePerm OR ModeDir, size64 = 0, isDir = True,
                       modTime = When (Author c), rdr = None, te = Entries tr\<rparr>)
                 (first_commit (Tree_repo t)
                    \<lparr>From = Tree_hash t, PathFilter = None, FileName = None\<rparr>)))"
proof -
  have 1: "Open (t\<lparr>Tree_tree := tt\<rparr>) name = Open t name"
    by (simp add: Open_def assms)
  have 2: "Storer (Tree_repo t) (Tree_hash t) = Inl ErrNotExist \<or>
        (\<exists>obj. Storer (Tree_repo t) (Tree_hash t) = Inr obj \<and>
           (opened obj = Inl ErrNotExist \<or>
            first_commit (Tree_repo t)
              (history_query (Tree_hash t) (directory_like obj) ''.'') = Inl ErrNotExist))"
    if "Open t name = Inl ErrNotExist"
    using that unfolding Open_root_eq [OF assms]
    by (auto split: sum.splits simp: map_sum_id_Inl)
  have 3: "commit f = Tree_hash t \<and> hash f = Tree_hash t \<and> fullName f = ''.'' \<and>
        mode f = ModePerm OR ModeDir" if "Open t name = Inr f"
  proof -
    from that have "NewFile (Tree_hash t) (Tree_hash t) (Tree_repo t) ''.'' Dir = Inr f"
      by (simp add: Open_def assms)
    then obtain osMode obj r' te' c where
      "ToOSFileMode Dir = Inr osMode"
      "f = entry_of (Tree_hash t) (Tree_hash t) (Tree_repo t) ''.'' osMode obj r' te' c"
      by (auto elim: NewFile_InrD)
    then show ?thesis
      by (simp add: ToOSFileMode_Dir entry_of_def)
  qed
  have 4: "Open t name =
          (case Commit_Tree k of
             Inl err \<Rightarrow> Inl err
           | Inr tr \<Rightarrow>
               map_sum id
                 (\<lambda>c. \<lparr>commit = Tree_hash t, hash = Tree_hash t, repo = Tree_repo t,
                       fullName = ''.'', mode = ModePerm OR ModeDir, size64 = 0, isDir = True,
                       modTime = When (Author c), rdr = None, te = Entries tr\<rparr>)
                 (first_commit (Tree_repo t)
                    \<lparr>From = Tree_hash t, PathFilter = None, FileName = None\<rparr>))"
    if k: "Storer (Tree_repo t) (Tree_hash t) = Inr (Commit_Object k)"
  proof -
    have q: "history_query (Tree_hash t) True ''.'' =
             \<lparr>From = Tree_hash t, PathFilter = None, FileName = None\<rparr>"
      by (simp add: history_query_def)
    have e: "entry_of (Tree_hash t) (Tree_hash t) (Tree_repo t) ''.'' (ModePerm OR ModeDir)
               (Commit_Object k) None es =
             (\<lambda>c. \<lparr>commit = Tree_hash t, hash = Tree_hash t, repo = Tree_repo t,
                     fullName = ''.'', mode = ModePerm OR ModeDir, size64 = 0, isDir = True,
                     modTime = When (Author c), rdr = None, te = es\<rparr>)" for es
      by (rule ext) (simp add: entry_of_def directory_like_def)
    show ?thesis
      unfolding Open_root_eq [OF assms]
      by (cases "Commit_Tree k") (simp_all add: k opened_def directory_like_def q e)
  qed
  have 5: "Open t name = Inl err" if "Storer (Tree_repo t) (Tree_hash t) = Inl err"
    unfolding Open_root_eq [OF assms] by (simp add: that)
  from 1 2 3 4 5 show ?thesis by blast
qed

lemma ex_snapshot_fields:
  "Tree_hash ex_snapshot = 1" "Tree_repo ex_snapshot = ex_repo"
  "Entries (Tree_tree ex_snapshot) = ex_root"
  "Storer ex_repo 1 = Inr (Commit_Object ex_commit1)"
  "Commit_Tree ex_commit1 = Inr (ex_tree ex_root)" "Entries (ex_tree ex_root) = ex_root"
  by (simp_all add: ex_snapshot_def ex_tree_def ex_repo_def ex_Storer_def ex_commit1_def)

lemma ex_Open_root_nolog: "Open ex_snapshot_nolog ''.'' = Inl ErrNotExist"
  by (simp add: Open_def NewFile_def ex_defs lib_defs)

lemma ex_TreeHash: "map_sum id TreeHash (CommitObject ex_repo 1) = Inr 2"
  by (simp add: CommitObject_def ex_repo_def ex_Storer_def ex_commit1_def)

theorem Open_root_witness:
  "NewFS ex_repo ''master'' = Inr ex_snapshot \<and> Clean ''./'' = ''.'' \<and>
   Open ex_snapshot ''./'' = Inr ex_root_dir \<and>
   Open (ex_snapshot\<lparr>Tree_tree := ex_tree ex_docs\<rparr>) ''./'' = Inr ex_root_dir \<and>
   isDir ex_root_dir \<and> hash ex_root_dir = 1 \<and> mode ex_root_dir = ModePerm OR ModeDir \<and>
   te ex_root_dir = Entries (Tree_tree ex_snapshot) \<and>
   Storer (Tree_repo (ex_snapshot\<lparr>Tree_hash := 9\<rparr>)) (Tree_hash (ex_snapshot\<lparr>Tree_hash := 9\<rparr>)) =
     Inl ErrObjectNotFound \<and>
   Open (ex_snapshot\<lparr>Tree_hash := 9\<rparr>) ''.'' = Inl ErrObjectNotFound \<and>
   Open ex_snapshot_nolog ''.'' = Inl ErrNotExist \<and>
   (Storer (Tree_repo ex_snapshot_nolog) (Tree_hash ex_snapshot_nolog) = Inl ErrNotExist \<or>
    (\<exists>obj. Storer (Tree_repo ex_snapshot_nolog) (Tree_hash ex_snapshot_nolog) = Inr obj \<and>
       (opened obj = Inl ErrNotExist \<or>
        first_commit (Tree_repo ex_snapshot_nolog)
          (history_query (Tree_hash ex_snapshot_nolog) (directory_like obj) ''.'') =
          Inl ErrNotExist)))"
proof -
  have c: "Clean ''./'' = ''.''" by (simp add: Clean_def)
  have c': "Clean ''.'' = ''.''" by (simp add: Clean_def)
  have w: "When (Author ex_commit1) = 300" by (simp add: ex_commit1_def)
  from Open_root [OF c, where t = ex_snapshot and tt = "ex_tree ex_docs"
      and f = ex_root_dir and k = ex_commit1]
  have "Open (ex_snapshot\<lparr>Tree_tree := ex_tree ex_docs\<rparr>) ''./'' = Open ex_snapshot ''./''"
    and "Open ex_snapshot ''./'' = Inr ex_root_dir"
    by (simp_all add: ex_snapshot_fields ex_first_root w ex_root_dir_def)
  moreover from Open_root [OF c', where t = ex_snapshot_nolog] ex_Open_root_nolog
  have "Storer (Tree_repo ex_snapshot_nolog) (Tree_hash ex_snapshot_nolog) = Inl ErrNotExist \<or>
    (\<exists>obj. Storer (Tree_repo ex_snapshot_nolog) (Tree_hash ex_snapshot_nolog) = Inr obj \<and>
       (opened obj = Inl ErrNotExist \<or>
        first_commit (Tree_repo ex_snapshot_nolog)
          (history_query (Tree_hash ex_snapshot_nolog) (directory_like obj) ''.'') =
          Inl ErrNotExist))"
    by blast
  moreover have g: "Storer (Tree_repo (ex_snapshot\<lparr>Tree_hash := 9\<rparr>))
      (Tree_hash (ex_snapshot\<lparr>Tree_hash := 9\<rparr>)) = Inl ErrObjectNotFound"
    by (simp add: ex_snapshot_def ex_repo_def ex_Storer_def)
  moreover from Open_root [OF c', where t = "ex_snapshot\<lparr>Tree_hash := 9\<rparr>"
      and err = ErrObjectNotFound] g
  have "Open (ex_snapshot\<lparr>Tree_hash := 9\<rparr>) ''.'' = Inl ErrObjectNotFound"
    by blast
  ultimately show ?thesis
    by (simp add: ex_NewFS c ex_dirs ex_snapshot_fields ex_Open_root_nolog)
       (simp add: ex_root_dir_def)
qed

text \<open>
  C8 as stated fails: the hash of the opened root is the commit 1, not its tree 2; and
  behind a history walk that fails with \<^verbatim>\<open>fs.ErrNotExist\<close> the root opens with that error.
\<close>

theorem Open_root_hash_is_commit:
  "NewFS ex_repo ''master'' = Inr ex_snapshot \<and>
   map_sum id hash (Open ex_snapshot ''.'') = Inr 1 \<and>
   map_sum id TreeHash (CommitObject ex_repo 1) = Inr 2 \<and>
   NewFS ex_repo_nolog ''master'' = Inr ex_snapshot_nolog \<and>
   Open ex_snapshot_nolog ''.'' = Inl ErrNotExist"
  by (simp add: ex_NewFS ex_NewFS_nolog ex_Open_root ex_Open_root_nolog ex_TreeHash)
     (simp add: ex_root_dir_def)

subsection \<open>The modification time of opened and listed entries\<close>

lemma NewFileInfo_modTime:
  assumes "NewFileInfo c h rp fn m = Inr e"
  shows "commit e = c \<and> fullName e = fn \<and>
         (\<exists>k. first_commit rp (history_query c (isDir e) fn) = Inr k \<and>
              Object_ModTime e = When (Author k))"
proof -
  from assms obtain osMode obj k where
    k: "first_commit rp (history_query c (directory_like obj) fn) = Inr k" and
    e: "e = entry_of c h rp fn osMode obj None [] k"
    by (auto elim: NewFileInfo_InrD)
  from e k show ?thesis by (simp add: entry_of_def Object_ModTime_def)
qed

lemma ReadDir_entries:
  assumes "x \<in> set (fst (fst (ReadDir ob n)))"
  shows "\<exists>v. child ob v = Inr x"
proof (cases "isDir ob")
  case True
  then obtain vs where vs: "map Inr (fst (fst (ReadDir ob n))) = map (child ob) vs"
    by (rule ReadDir_step)
  from assms have "Inr x \<in> set (map Inr (fst (fst (ReadDir ob n))))" by simp
  then have "Inr x \<in> set (map (child ob) vs)" unfolding vs [symmetric] .
  then show ?thesis by auto
next
  case False
  then have "fst (fst (ReadDir ob n)) = []" by (simp add: ReadDir_def)
  with assms show ?thesis by simp
qed

text \<open>
  C1, as amended. An entry of the \<^verbatim>\<open>Object\<close>-based adapter, opened by \<^verbatim>\<open>Open\<close> (through
  \<^verbatim>\<open>NewFile\<close>), built by \<^verbatim>\<open>NewFileInfo\<close>, or returned by a \<^verbatim>\<open>ReadDir\<close> listing, has the
  author time of the first commit of the history walk that starts at the snapshot's
  commit and is filtered by the exact path of the entry (file), by that path as a
  prefix (directory), or not at all (the root). An entry opened by the \<^verbatim>\<open>File\<close>-based
  \<^verbatim>\<open>Open\<close> of \<^verbatim>\<open>src/fs.go\<close> has the committer time of the first commit of the walk
  filtered by the name as given.
\<close>

theorem modTime_first_commit:
  "(Open t name = Inr f \<longrightarrow>
      commit f = Tree_hash t \<and> fullName f = Clean name \<and>
      (\<exists>k. first_commit (Tree_repo t) (history_query (Tree_hash t) (isDir f) (fullName f)) = Inr k \<and>
           Object_ModTime f = When (Author k))) \<and>
   (NewFileInfo c h rp fn m = Inr e \<longrightarrow>
      commit e = c \<and> fullName e = fn \<and>
      (\<exists>k. first_commit rp (history_query c (isDir e) (fullName e)) = Inr k \<and>
           Object_ModTime e = When (Author k))) \<and>
   (x \<in> set (fst (fst (ReadDir ob n))) \<longrightarrow>
      commit x = commit ob \<and>
      (\<exists>k. first_commit (repo ob) (history_query (commit ob) (isDir x) (fullName x)) = Inr k \<and>
           Object_ModTime x = When (Author k))) \<and>
   (File_Open t name = Inr g \<longrightarrow>
      (\<exists>k. first_commit (Tree_repo t)
             \<lparr>From = Tree_hash t, PathFilter = None, FileName = Some name\<rparr> = Inr k \<and>
           fi_modTime (fi g) = When (Committer k)))"
proof -
  have 1: "commit f = Tree_hash t \<and> fullName f = Clean name \<and>
      (\<exists>k. first_commit (Tree_repo t) (history_query (Tree_hash t) (isDir f) (fullName f)) = Inr k \<and>
           Object_ModTime f = When (Author k))" if "Open t name = Inr f"
  proof -
    from that obtain h m where "NewFile (Tree_hash t) h (Tree_repo t) (Clean name) m = Inr f"
      by (rule Open_InrD)
    then obtain osMode obj r' te' k where
      k: "first_commit (Tree_repo t)
            (history_query (Tree_hash t) (directory_like obj) (Clean name)) = Inr k"
      and f: "f = entry_of (Tree_hash t) h (Tree_repo t) (Clean name) osMode obj r' te' k"
      by (rule NewFile_InrD)
    from f k show ?thesis by (simp add: entry_of_def Object_ModTime_def)
  qed
  have 2: "commit e = c \<and> fullName e = fn \<and>
      (\<exists>k. first_commit rp (history_query c (isDir e) (fullName e)) = Inr k \<and>
           Object_ModTime e = When (Author k))" if "NewFileInfo c h rp fn m = Inr e"
    using NewFileInfo_modTime [OF that] by auto
  have 3: "commit x = commit ob \<and>
      (\<exists>k. first_commit (repo ob) (history_query (commit ob) (isDir x) (fullName x)) = Inr k \<and>
           Object_ModTime x = When (Author k))" if "x \<in> set (fst (fst (ReadDir ob n)))"
  proof -
    from that obtain v where "child ob v = Inr x" by (auto dest: ReadDir_entries)
    then have "NewFileInfo (commit ob) (Hash v) (repo ob) (Join (fullName ob) (Name v)) (Mode v) = Inr x"
      by (simp add: child_def)
    from NewFileInfo_modTime [OF this] show ?thesis by auto
  qed
  have 4: "\<exists>k. first_commit (Tree_repo t)
             \<lparr>From = Tree_hash t, PathFilter = None, FileName = Some name\<rparr> = Inr k \<and>
           fi_modTime (fi g) = When (Committer k)" if "File_Open t name = Inr g"
    using that by (rule File_Open_InrD) blast
  from 1 2 3 4 show ?thesis by blast
qed

lemma ex_ReadDir_docs_1: "fst (fst (ReadDir ex_docs_dir 1)) = [ex_readme_info]"
  by (simp add: ReadDir_def ReadDir_loop.simps NewFileInfo_def ex_docs_dir_def ex_readme_info_def
      ex_defs lib_defs)

lemma ex_first_readme:
  "first_commit ex_repo (history_query 1 False ''docs/readme.md'') = Inr ex_commit1"
  by (simp add: first_commit_def history_query_def ex_repo_def ex_Log_def ex_touches_def Next_def)

theorem modTime_first_commit_witness:
  "map_sum id Object_ModTime (Open ex_snapshot ''a.go'') = Inr 100 \<and>
   (\<exists>k. first_commit ex_repo (history_query 1 False ''a.go'') = Inr k \<and> When (Author k) = 100) \<and>
   NewFileInfo 1 4 ex_repo ''a.go'' Regular = Inr ex_a_info \<and> Object_ModTime ex_a_info = 100 \<and>
   ex_readme_info \<in> set (fst (fst (ReadDir ex_docs_dir 1))) \<and>
   (\<exists>k. first_commit ex_repo (history_query 1 False ''docs/readme.md'') = Inr k \<and>
        When (Author k) = Object_ModTime ex_readme_info) \<and>
   (\<exists>k. first_commit ex_repo \<lparr>From = 1, PathFilter = None, FileName = Some ''a.go''\<rparr> = Inr k \<and>
        When (Committer k) = 150)"
proof -
  obtain f where f: "Open ex_snapshot ''a.go'' = Inr f"
    and d: "\<not> isDir f" "fullName f = ''a.go''" "Object_ModTime f = 100"
    by (simp add: Open_def NewFile_def ex_defs lib_defs Object_ModTime_def)
  obtain g where g: "File_Open ex_snapshot ''a.go'' = Inr g" and m: "fi_modTime (fi g) = 150"
    by (simp add: ex_File_Open_a)
  have e: "NewFileInfo 1 4 ex_repo ''a.go'' Regular = Inr ex_a_info"
    using ex_child_a by (simp add: child_def ex_root_dir_def Join_def Clean_def)
  have x: "ex_readme_info \<in> set (fst (fst (ReadDir ex_docs_dir 1)))"
    by (simp add: ex_ReadDir_docs_1)
  have t: "Tree_hash ex_snapshot = 1" "Tree_repo ex_snapshot = ex_repo"
    by (simp_all add: ex_snapshot_def)
  have i: "\<not> isDir ex_a_info" "fullName ex_a_info = ''a.go''" "Object_ModTime ex_a_info = 100"
    "\<not> isDir ex_readme_info" "fullName ex_readme_info = ''docs/readme.md''"
    "commit ex_docs_dir = 1" "repo ex_docs_dir = ex_repo"
    by (simp_all add: ex_a_info_def ex_readme_info_def ex_docs_dir_def Object_ModTime_def)
  from modTime_first_commit [where t = ex_snapshot and name = "''a.go''" and f = f and g = g
      and c = 1 and h = 4 and rp = ex_repo and fn = "''a.go''" and m = Regular and e = ex_a_info
      and x = ex_readme_info and ob = ex_docs_dir and n = 1]
    f g m d t e x i
  show ?thesis by auto
qed

text \<open>
  C1 as stated fails on \<^verbatim>\<open>src/fs.go\<close>: the first commit of the history of \<^verbatim>\<open>a.go\<close> has the
  author time 100, and the opened file has the modification time 150, the committer's.
\<close>

theorem File_Open_committer_time:
  "File_Open ex_snapshot ''a.go'' =
     Inr \<lparr>fi = \<lparr>fi_name = ''a.go'', fi_size = 3, fi_mode = 420, fi_modTime = 150, fi_isDir = False\<rparr>,
          File_r = Some [1, 2, 3]\<rparr> \<and>
   first_commit ex_repo (history_query 1 False ''a.go'') = Inr ex_commit6 \<and>
   When (Author ex_commit6) = 100 \<and> When (Committer ex_commit6) = 150"
  by (simp add: ex_File_Open_a ex_first_a) (simp add: ex_commit6_def)

end
